theory Spec2Isabelle
  imports Main "HOL-Library.AList"
begin

section \<open>Rate and replay gates (src/rate-limit.ts)\<close>

text \<open>
  Wall-clock readings (\<^verbatim>\<open>Date.now()\<close>) are counts of milliseconds since the epoch and
  are modelled as \<open>nat\<close>. Numbers that arrive in frames, in configuration or in the
  persisted stores are \<open>int\<close>. A JavaScript \<^verbatim>\<open>Map\<close> keeps insertion order and is an
  association list here; \<open>AList.update\<close> overwrites in place or appends, as
  \<^verbatim>\<open>Map.set\<close> does.
\<close>

datatype LimitType = connections | claims | injects | invalidMessages

record RateLimitConfig =
  windowMs :: int
  maxRequests :: int
  blockDurationMs :: int

type_synonym RateLimits = "LimitType \<Rightarrow> RateLimitConfig"

record RateLimitState =
  requests :: "nat list"
  blockedUntil :: "int option"

record RateLimiter =
  limits :: RateLimits
  state :: "(string \<times> (LimitType \<times> RateLimitState) list) list"

definition DEFAULT_LIMITS :: RateLimits where
  "DEFAULT_LIMITS t =
     (case t of
        connections \<Rightarrow> \<lparr>windowMs = 60000, maxRequests = 10, blockDurationMs = 300000\<rparr>
      | claims \<Rightarrow> \<lparr>windowMs = 60000, maxRequests = 5, blockDurationMs = 300000\<rparr>
      | injects \<Rightarrow> \<lparr>windowMs = 1000, maxRequests = 10, blockDurationMs = 60000\<rparr>
      | invalidMessages \<Rightarrow> \<lparr>windowMs = 60000, maxRequests = 3, blockDurationMs = 600000\<rparr>)"

text \<open>\<^verbatim>\<open>new RateLimiter()\<close>: the default limits and an empty table.\<close>

definition new_RateLimiter :: RateLimiter where
  "new_RateLimiter = \<lparr>limits = DEFAULT_LIMITS, state = []\<rparr>"

text \<open>The entry a fresh \<^verbatim>\<open>getState\<close> creates: \<^verbatim>\<open>{ requests: [] }\<close>.\<close>

definition emptyState :: RateLimitState where
  "emptyState = \<lparr>requests = [], blockedUntil = None\<rparr>"

text \<open>
  \<^verbatim>\<open>getState\<close> creates the peer's table and the class's entry when they are missing, and
  returns the entry. The source returns a reference into the table; the model returns
  the entry together with the table that now holds it, and \<open>putState\<close> writes the
  mutated entry back at the same place.
\<close>

definition getState :: "RateLimiter \<Rightarrow> string \<Rightarrow> LimitType \<Rightarrow> RateLimitState \<times> RateLimiter" where
  "getState rl peerKey limitType =
     (let peerState = (case map_of (state rl) peerKey of None \<Rightarrow> [] | Some ps \<Rightarrow> ps);
          st = (case map_of peerState limitType of None \<Rightarrow> emptyState | Some s \<Rightarrow> s)
      in (st, rl\<lparr>state := AList.update peerKey (AList.update limitType st peerState) (state rl)\<rparr>))"

definition putState :: "RateLimiter \<Rightarrow> string \<Rightarrow> LimitType \<Rightarrow> RateLimitState \<Rightarrow> RateLimiter" where
  "putState rl peerKey limitType st =
     (let peerState = (case map_of (state rl) peerKey of None \<Rightarrow> [] | Some ps \<Rightarrow> ps)
      in rl\<lparr>state := AList.update peerKey (AList.update limitType st peerState) (state rl)\<rparr>)"

text \<open>Reading an entry without creating it (what \<^verbatim>\<open>getState\<close> would return).\<close>

definition stateOf :: "RateLimiter \<Rightarrow> string \<Rightarrow> LimitType \<Rightarrow> RateLimitState" where
  "stateOf rl peerKey limitType =
     (case map_of (state rl) peerKey of
        None \<Rightarrow> emptyState
      | Some ps \<Rightarrow> (case map_of ps limitType of None \<Rightarrow> emptyState | Some s \<Rightarrow> s))"

text \<open>
  \<^verbatim>\<open>state.blockedUntil && now < state.blockedUntil\<close> and
  \<^verbatim>\<open>state.blockedUntil && now >= state.blockedUntil\<close>: a missing field and the number
  0 are both falsy.
\<close>

definition blockedNow :: "RateLimitState \<Rightarrow> nat \<Rightarrow> bool" where
  "blockedNow st now = (case blockedUntil st of None \<Rightarrow> False | Some b \<Rightarrow> b \<noteq> 0 \<and> int now < b)"

definition blockExpired :: "RateLimitState \<Rightarrow> nat \<Rightarrow> bool" where
  "blockExpired st now = (case blockedUntil st of None \<Rightarrow> False | Some b \<Rightarrow> b \<noteq> 0 \<and> int now \<ge> b)"

text \<open>The body of \<^verbatim>\<open>RateLimiter.check\<close> on the entry of one peer and class.\<close>

definition checkEntry :: "RateLimitConfig \<Rightarrow> nat \<Rightarrow> RateLimitState \<Rightarrow> bool \<times> RateLimitState" where
  "checkEntry config now st =
     (if blockedNow st now then (False, st)
      else
        let st1 = (if blockExpired st now then st\<lparr>requests := [], blockedUntil := None\<rparr> else st);
            st2 = st1\<lparr>requests := filter (\<lambda>ts. int now - int ts < windowMs config) (requests st1)\<rparr>
        in if int (length (requests st2)) \<ge> maxRequests config
           then (False, st2\<lparr>blockedUntil := Some (int now + blockDurationMs config)\<rparr>)
           else (True, st2\<lparr>requests := requests st2 @ [now]\<rparr>))"

definition RateLimiter_check :: "RateLimiter \<Rightarrow> nat \<Rightarrow> string \<Rightarrow> LimitType \<Rightarrow> bool \<times> RateLimiter" where
  "RateLimiter_check rl now peerKey limitType =
     (let config = limits rl limitType;
          (st, rl1) = getState rl peerKey limitType;
          (ok, st') = checkEntry config now st
      in (ok, putState rl1 peerKey limitType st'))"

text \<open>\<^verbatim>\<open>block(peerKey, limitType, durationMs?)\<close>.\<close>

definition RateLimiter_block :: "RateLimiter \<Rightarrow> nat \<Rightarrow> string \<Rightarrow> LimitType \<Rightarrow> int option \<Rightarrow> RateLimiter" where
  "RateLimiter_block rl now peerKey limitType durationMs =
     (let config = limits rl limitType;
          (st, rl1) = getState rl peerKey limitType;
          d = (case durationMs of None \<Rightarrow> blockDurationMs config | Some d \<Rightarrow> d)
      in putState rl1 peerKey limitType (st\<lparr>blockedUntil := Some (int now + d)\<rparr>))"

text \<open>A run of \<^verbatim>\<open>check\<close> calls, each at its own clock reading, with the answers in order.\<close>

fun runChecks :: "RateLimiter \<Rightarrow> (nat \<times> string \<times> LimitType) list \<Rightarrow> bool list \<times> RateLimiter" where
  "runChecks rl [] = ([], rl)"
| "runChecks rl ((now, p, c) # calls) =
     (let (ok, rl1) = RateLimiter_check rl now p c;
          (oks, rl2) = runChecks rl1 calls
      in (ok # oks, rl2))"

text \<open>A limiter configuration whose block is shorter than its window.\<close>

definition tightLimits :: RateLimits where
  "tightLimits t = \<lparr>windowMs = 60000, maxRequests = 1, blockDurationMs = 1000\<rparr>"

subsection \<open>Replay protector\<close>

record ReplayProtector =
  seenNonces :: "(string \<times> int) list"
  maxAgeMs :: int
  maxClockSkewMs :: int

text \<open>\<^verbatim>\<open>new ReplayProtector()\<close>: five minutes of age, thirty seconds of clock skew.\<close>

definition new_ReplayProtector :: ReplayProtector where
  "new_ReplayProtector = \<lparr>seenNonces = [], maxAgeMs = 300000, maxClockSkewMs = 30000\<rparr>"

text \<open>\<^verbatim>\<open>cleanup()\<close> deletes every nonce whose recorded timestamp is below \<open>now - maxAgeMs\<close>.\<close>

definition ReplayProtector_cleanup :: "ReplayProtector \<Rightarrow> nat \<Rightarrow> ReplayProtector" where
  "ReplayProtector_cleanup rp now =
     (let cutoff = int now - maxAgeMs rp
      in rp\<lparr>seenNonces := filter (\<lambda>(nonce, ts). \<not> ts < cutoff) (seenNonces rp)\<rparr>)"

text \<open>
  \<^verbatim>\<open>check(nonce, timestamp)\<close> reads the clock once (\<open>now\<close>); the \<^verbatim>\<open>cleanup()\<close> it calls when
  the table has more than 10000 entries reads the clock again (\<open>nowCleanup\<close>).
\<close>

definition ReplayProtector_check ::
  "ReplayProtector \<Rightarrow> nat \<Rightarrow> nat \<Rightarrow> string \<Rightarrow> int \<Rightarrow> bool \<times> ReplayProtector" where
  "ReplayProtector_check rp now nowCleanup nonce timestamp =
     (if timestamp < int now - maxAgeMs rp then (False, rp)
      else if timestamp > int now + maxClockSkewMs rp then (False, rp)
      else if map_of (seenNonces rp) nonce \<noteq> None then (False, rp)
      else
        let rp1 = rp\<lparr>seenNonces := AList.update nonce timestamp (seenNonces rp)\<rparr>;
            rp2 = (if length (seenNonces rp1) > 10000 then ReplayProtector_cleanup rp1 nowCleanup
                   else rp1)
        in (True, rp2))"

text \<open>
  What happens to a protector between two presentations of a frame: other frames are
  checked and the table is cleaned, each call with its own clock readings.
\<close>

datatype ReplayOp = OpCheck nat nat string int | OpCleanup nat

fun replayStep :: "ReplayProtector \<Rightarrow> ReplayOp \<Rightarrow> ReplayProtector" where
  "replayStep rp (OpCheck now nowCleanup nonce timestamp) =
     snd (ReplayProtector_check rp now nowCleanup nonce timestamp)"
| "replayStep rp (OpCleanup now) = ReplayProtector_cleanup rp now"

fun runReplay :: "ReplayProtector \<Rightarrow> ReplayOp list \<Rightarrow> ReplayProtector" where
  "runReplay rp [] = rp"
| "runReplay rp (op # ops) = runReplay (replayStep rp op) ops"

text \<open>The clock does not run backwards: the readings of the calls, from \<open>t\<close> on, in order.\<close>

fun clockOrdered :: "nat \<Rightarrow> ReplayOp list \<Rightarrow> bool" where
  "clockOrdered t [] = True"
| "clockOrdered t (OpCheck now nowCleanup nonce timestamp # ops) =
     (t \<le> now \<and> now \<le> nowCleanup \<and> clockOrdered nowCleanup ops)"
| "clockOrdered t (OpCleanup now # ops) = (t \<le> now \<and> clockOrdered now ops)"

fun lastClock :: "nat \<Rightarrow> ReplayOp list \<Rightarrow> nat" where
  "lastClock t [] = t"
| "lastClock t (OpCheck now nowCleanup nonce timestamp # ops) = lastClock nowCleanup ops"
| "lastClock t (OpCleanup now # ops) = lastClock now ops"

text \<open>A table of 10000 nonces, all recorded with the timestamp 100000.\<close>

definition fullTable :: "(string \<times> int) list" where
  "fullTable = map (\<lambda>i. (replicate (Suc i) CHR ''x'', 100000)) [0..<10000]"

section \<open>Trust store (src/trust.ts)\<close>

text \<open>
  The records of \<^verbatim>\<open>types.ts\<close> as \<^verbatim>\<open>trust.ts\<close> uses them. A field the source tests for
  presence (\<^verbatim>\<open>!g.keyHistory\<close>, \<^verbatim>\<open>history.validUntil && ...\<close>, \<^verbatim>\<open>if (encryptPub)\<close>) is an
  \<open>option\<close>. Field names shared by several records carry a suffix: \<open>_h\<close> for a history
  entry, \<open>_g\<close> for a grant, \<open>_p\<close> for a peer, \<open>_k\<close> for a key rotation.
\<close>

record KeyHistory =
  publicKey_h :: string
  encryptPub_h :: string
  validFrom :: int
  validUntil :: "int option"
  rotationReason :: string

record AccessGrant =
  id_g :: string
  peerKey :: string
  peerEncryptPub :: "string option"
  sessions_g :: "string list"
  caps_g :: "string list"
  created :: int
  revoked :: "bool option"
  peerName :: "string option"
  keyHistory_g :: "KeyHistory list option"

record Peer =
  id_p :: string
  name_p :: "string option"
  publicKey_p :: string
  encryptPub_p :: "string option"
  sessions_p :: "string list"
  caps_p :: "string list"
  added :: int
  keyHistory_p :: "KeyHistory list option"

record KeyRotation =
  v_k :: int
  oldSignPub :: string
  newSignPub :: string
  newEncryptPub :: string
  reason_k :: string
  effectiveAt :: int
  gracePeriodMs :: int
  sig_k :: string

text \<open>The two files \<^verbatim>\<open>trust.ts\<close> reads and writes: \<^verbatim>\<open>access.json\<close> and \<^verbatim>\<open>peers.json\<close>.\<close>

record TrustStore =
  grants :: "AccessGrant list"
  peers :: "Peer list"

datatype TrustError = NoActiveGrant string | PeerNotFound string

text \<open>JavaScript truthiness of the optional fields.\<close>

definition isRevoked :: "AccessGrant \<Rightarrow> bool" where
  "isRevoked g = (revoked g = Some True)"

definition truthyStr :: "string option \<Rightarrow> bool" where
  "truthyStr s = (case s of None \<Rightarrow> False | Some x \<Rightarrow> x \<noteq> '''')"

definition orEmpty :: "string option \<Rightarrow> string" where
  "orEmpty s = (case s of None \<Rightarrow> '''' | Some x \<Rightarrow> x)"

text \<open>\<^verbatim>\<open>history.validUntil && Date.now() < history.validUntil\<close>.\<close>

definition inGrace :: "KeyHistory \<Rightarrow> nat \<Rightarrow> bool" where
  "inGrace history now =
     (case validUntil history of None \<Rightarrow> False | Some u \<Rightarrow> u \<noteq> 0 \<and> int now < u)"

text \<open>\<^verbatim>\<open>Array.prototype.findIndex\<close>, with \<open>None\<close> for \<open>-1\<close>.\<close>

fun findIndex :: "('a \<Rightarrow> bool) \<Rightarrow> 'a list \<Rightarrow> nat option" where
  "findIndex P [] = None"
| "findIndex P (x # xs) = (if P x then Some 0 else map_option Suc (findIndex P xs))"

text \<open>
  \<^verbatim>\<open>Array.from(new Set(xs))\<close>: the first occurrence of each element, in order.
\<close>

definition fromSet :: "'a list \<Rightarrow> 'a list" where
  "fromSet xs = rev (remdups (rev xs))"

text \<open>
  \<^verbatim>\<open>String.prototype.toLowerCase\<close> folds letters of every script by the Unicode tables. It
  is a parameter (\<open>toLowerCase\<close>) of every function that compares names. For evaluated
  runs \<open>asciiLowerCase\<close>, which folds \<open>A\<close> to \<open>Z\<close> only, stands in; it agrees with the
  library function on ASCII strings.
\<close>

definition lowerChar :: "char \<Rightarrow> char" where
  "lowerChar c = (let n = (of_char c :: nat) in if 65 \<le> n \<and> n \<le> 90 then char_of (n + 32) else c)"

definition asciiLowerCase :: "string \<Rightarrow> string" where
  "asciiLowerCase s = map lowerChar s"

text \<open>Decimal printing of a clock reading, for \<^verbatim>\<open>`grant-${Date.now()}`\<close>.\<close>

function showNat :: "nat \<Rightarrow> string" where
  "showNat n = (if n < 10 then [char_of (48 + n)] else showNat (n div 10) @ [char_of (48 + n mod 10)])"
  by pat_completeness auto
termination
  by (relation "measure id") auto

declare showNat.simps [simp del]

subsection \<open>Authorization lookup\<close>

text \<open>The inner loop of \<^verbatim>\<open>isAuthorized\<close> over one grant's key history.\<close>

fun historyAuthorizes :: "KeyHistory list \<Rightarrow> nat \<Rightarrow> string \<Rightarrow> bool" where
  "historyAuthorizes [] now senderKey = False"
| "historyAuthorizes (history # rest) now senderKey =
     (if publicKey_h history = senderKey \<and> inGrace history now then True
      else historyAuthorizes rest now senderKey)"

text \<open>The outer loop of \<^verbatim>\<open>isAuthorized\<close> over the grants.\<close>

fun historyScan :: "AccessGrant list \<Rightarrow> nat \<Rightarrow> string \<Rightarrow> string \<Rightarrow> bool" where
  "historyScan [] now senderKey session = False"
| "historyScan (g # gs) now senderKey session =
     (case keyHistory_g g of
        None \<Rightarrow> historyScan gs now senderKey session
      | Some hs \<Rightarrow>
          if isRevoked g then historyScan gs now senderKey session
          else if ''*'' \<notin> set (sessions_g g) \<and> session \<notin> set (sessions_g g)
            then historyScan gs now senderKey session
          else if ''inject'' \<notin> set (caps_g g) then historyScan gs now senderKey session
          else if historyAuthorizes hs now senderKey then True
          else historyScan gs now senderKey session)"

definition isAuthorized :: "AccessGrant list \<Rightarrow> nat \<Rightarrow> string \<Rightarrow> string \<Rightarrow> bool" where
  "isAuthorized gs now senderKey session =
     (case find (\<lambda>g. \<not> isRevoked g \<and> peerKey g = senderKey \<and>
                     (''*'' \<in> set (sessions_g g) \<or> session \<in> set (sessions_g g)) \<and>
                     ''inject'' \<in> set (caps_g g)) gs of
        Some grant \<Rightarrow> True
      | None \<Rightarrow> historyScan gs now senderKey session)"

text \<open>The inner and outer loops of \<^verbatim>\<open>getGrantForPeer\<close>.\<close>

fun historyHasKey :: "KeyHistory list \<Rightarrow> string \<Rightarrow> bool" where
  "historyHasKey [] k = False"
| "historyHasKey (history # rest) k = (if publicKey_h history = k then True else historyHasKey rest k)"

fun grantByHistory :: "AccessGrant list \<Rightarrow> string \<Rightarrow> AccessGrant option" where
  "grantByHistory [] k = None"
| "grantByHistory (g # gs) k =
     (case keyHistory_g g of
        None \<Rightarrow> grantByHistory gs k
      | Some hs \<Rightarrow>
          if isRevoked g then grantByHistory gs k
          else if historyHasKey hs k then Some g
          else grantByHistory gs k)"

definition getGrantForPeer :: "AccessGrant list \<Rightarrow> string \<Rightarrow> AccessGrant option" where
  "getGrantForPeer gs k =
     (case find (\<lambda>g. \<not> isRevoked g \<and> peerKey g = k) gs of
        Some grant \<Rightarrow> Some grant
      | None \<Rightarrow> grantByHistory gs k)"

subsection \<open>Peers\<close>

text \<open>\<^verbatim>\<open>name?.toLowerCase() === idOrName.toLowerCase()\<close>.\<close>

definition nameMatches :: "(string \<Rightarrow> string) \<Rightarrow> string option \<Rightarrow> string \<Rightarrow> bool" where
  "nameMatches toLowerCase name idOrName =
     (case name of None \<Rightarrow> False | Some n \<Rightarrow> toLowerCase n = toLowerCase idOrName)"

fun peerByHistory :: "Peer list \<Rightarrow> string \<Rightarrow> Peer option" where
  "peerByHistory [] k = None"
| "peerByHistory (p # ps) k =
     (case keyHistory_p p of
        None \<Rightarrow> peerByHistory ps k
      | Some hs \<Rightarrow> if historyHasKey hs k then Some p else peerByHistory ps k)"

definition findPeer :: "(string \<Rightarrow> string) \<Rightarrow> Peer list \<Rightarrow> string \<Rightarrow> Peer option" where
  "findPeer toLowerCase ps idOrName =
     (case find (\<lambda>p. id_p p = idOrName \<or> nameMatches toLowerCase (name_p p) idOrName \<or>
                     publicKey_p p = idOrName) ps of
        Some peer \<Rightarrow> Some peer
      | None \<Rightarrow> peerByHistory ps idOrName)"

subsection \<open>Granting and revoking\<close>

text \<open>
  \<^verbatim>\<open>shortKey\<close> (the first eight hex digits of a SHA-256) comes from \<^verbatim>\<open>identity.ts\<close> and is
  a parameter here, as \<^verbatim>\<open>verifyKeyRotation\<close> is below.
\<close>



text \<open>
  \<^verbatim>\<open>grantAccess\<close> reads the clock twice when it builds a new grant: for the id
  (\<open>nowId\<close>) and for \<open>created\<close> (\<open>nowCreated\<close>).
\<close>

definition grantAccess ::
  "AccessGrant list \<Rightarrow> nat \<Rightarrow> nat \<Rightarrow> string \<Rightarrow> string list \<Rightarrow> string list \<Rightarrow> string option
     \<Rightarrow> AccessGrant \<times> AccessGrant list" where
  "grantAccess gs nowId nowCreated k sessions caps encryptPub =
     (case findIndex (\<lambda>g. peerKey g = k \<and> \<not> isRevoked g) gs of
        Some idx \<Rightarrow>
          let existing = gs ! idx;
              e1 = existing\<lparr>sessions_g := fromSet (sessions_g existing @ sessions),
                            caps_g := fromSet (caps_g existing @ caps)\<rparr>;
              e2 = (if truthyStr encryptPub then e1\<lparr>peerEncryptPub := encryptPub\<rparr> else e1)
          in (e2, gs[idx := e2])
      | None \<Rightarrow>
          let grant = \<lparr>id_g = ''grant-'' @ showNat nowId, peerKey = k, peerEncryptPub = encryptPub,
                       sessions_g = sessions, caps_g = caps, created = int nowCreated,
                       revoked = None, peerName = None, keyHistory_g = None\<rparr>
          in (grant, gs @ [grant]))"

subsection \<open>Key rotation\<close>

text \<open>
  \<^verbatim>\<open>rotation.effectiveAt + rotation.gracePeriodMs\<close> is an addition of IEEE doubles, which is
  the exact sum only below \<open>2\<^sup>5\<^sup>3\<close>. The addition is the parameter \<open>add\<close>; evaluated runs
  use the exact sum.
\<close>

definition rotateGrant :: "(int \<Rightarrow> int \<Rightarrow> int) \<Rightarrow> AccessGrant \<Rightarrow> KeyRotation \<Rightarrow> AccessGrant" where
  "rotateGrant add grant rotation =
     (let historyEntry = \<lparr>publicKey_h = peerKey grant,
                          encryptPub_h = orEmpty (peerEncryptPub grant),
                          validFrom = created grant,
                          validUntil = Some (add (effectiveAt rotation) (gracePeriodMs rotation)),
                          rotationReason = reason_k rotation\<rparr>;
          hs = (case keyHistory_g grant of None \<Rightarrow> [] | Some hs \<Rightarrow> hs)
      in grant\<lparr>keyHistory_g := Some (hs @ [historyEntry]),
               peerKey := newSignPub rotation,
               peerEncryptPub := Some (newEncryptPub rotation)\<rparr>)"

definition rotatePeer ::
  "(string \<Rightarrow> string) \<Rightarrow> (int \<Rightarrow> int \<Rightarrow> int) \<Rightarrow> Peer \<Rightarrow> KeyRotation \<Rightarrow> Peer" where
  "rotatePeer shortKey add peer rotation =
     (let historyEntry = \<lparr>publicKey_h = publicKey_p peer,
                          encryptPub_h = orEmpty (encryptPub_p peer),
                          validFrom = added peer,
                          validUntil = Some (add (effectiveAt rotation) (gracePeriodMs rotation)),
                          rotationReason = reason_k rotation\<rparr>;
          hs = (case keyHistory_p peer of None \<Rightarrow> [] | Some hs \<Rightarrow> hs)
      in peer\<lparr>keyHistory_p := Some (hs @ [historyEntry]),
              publicKey_p := newSignPub rotation,
              encryptPub_p := Some (newEncryptPub rotation),
              id_p := shortKey (newSignPub rotation)\<rparr>)"

definition processPeerKeyRotation ::
  "(KeyRotation \<Rightarrow> bool) \<Rightarrow> (string \<Rightarrow> string) \<Rightarrow> (int \<Rightarrow> int \<Rightarrow> int) \<Rightarrow> TrustStore \<Rightarrow> KeyRotation
     \<Rightarrow> bool \<times> TrustStore" where
  "processPeerKeyRotation verifyKeyRotation shortKey add store rotation =
     (if \<not> verifyKeyRotation rotation then (False, store)
      else
        let grantIdx = findIndex (\<lambda>g. peerKey g = oldSignPub rotation \<and> \<not> isRevoked g) (grants store);
            grants' = (case grantIdx of
                         None \<Rightarrow> grants store
                       | Some i \<Rightarrow> (grants store)[i := rotateGrant add (grants store ! i) rotation]);
            peerIdx = findIndex (\<lambda>p. publicKey_p p = oldSignPub rotation) (peers store);
            peers' = (case peerIdx of
                        None \<Rightarrow> peers store
                      | Some i \<Rightarrow> (peers store)[i := rotatePeer shortKey add (peers store ! i) rotation])
        in (grantIdx \<noteq> None \<or> peerIdx \<noteq> None, \<lparr>grants = grants', peers = peers'\<rparr>))"

text \<open>
  Stand-ins for the two functions of \<^verbatim>\<open>identity.ts\<close>, used where a concrete run is
  evaluated: a rotation whose signature verifies, and a short id that is a prefix of the
  key.
\<close>

definition signatureVerifies :: "KeyRotation \<Rightarrow> bool" where
  "signatureVerifies rotation = True"

definition keyPrefix :: "string \<Rightarrow> string" where
  "keyPrefix k = take 8 k"

section \<open>Protocol engine (the P2P module in src/cli.ts)\<close>

text \<open>
  Modelled from the spec: the constants of \<^verbatim>\<open>types.ts\<close>, which is not among the sources.
  The supported protocol versions are 1 to 2, and the result codes are those of the
  spec's table of exit codes.
\<close>

definition PROTOCOL_VERSION :: int where "PROTOCOL_VERSION = 2"
definition MIN_PROTOCOL_VERSION :: int where "MIN_PROTOCOL_VERSION = 1"

definition EXIT_OK :: int where "EXIT_OK = 0"
definition EXIT_OFFLINE :: int where "EXIT_OFFLINE = 1"
definition EXIT_REJECTED :: int where "EXIT_REJECTED = 2"
definition EXIT_INVALID :: int where "EXIT_INVALID = 3"
definition EXIT_RATE_LIMITED :: int where "EXIT_RATE_LIMITED = 4"
definition EXIT_VERSION_MISMATCH :: int where "EXIT_VERSION_MISMATCH = 5"

record InviteToken =
  iss :: string
  sub :: string
  ses :: "string list"
  cap :: "string list"
  iat :: int
  exp :: int
  nonce_t :: string
  sig_t :: string

text \<open>A received frame: the wide record \<^verbatim>\<open>P2PMessage\<close>, suffix \<open>_m\<close>.\<close>

record P2PMessage =
  v_m :: int
  type_m :: string
  from_m :: string
  nonce_m :: string
  ts_m :: int
  sig_m :: string
  versions_m :: "int list option"
  version_m :: "int option"
  ephemeralPub_m :: "string option"
  encryptPub_m :: "string option"
  token_m :: "string option"
  session_m :: "string option"
  payload_m :: "string option"
  keyRotation_m :: "KeyRotation option"
  reason_m :: "string option"

text \<open>
  A frame the engine writes, suffix \<open>_f\<close>: the fields the source passes to
  \<^verbatim>\<open>signMessage\<close>, without the random nonce, the clock reading and the signature.
\<close>

record Frame =
  v_f :: int
  type_f :: string
  from_f :: string
  version_f :: "int option"
  ephemeralPub_f :: "string option"
  encryptPub_f :: "string option"
  session_f :: "string option"
  reason_f :: "string option"

definition frame :: "string \<Rightarrow> string \<Rightarrow> Frame" where
  "frame myPublicKey t =
     \<lparr>v_f = PROTOCOL_VERSION, type_f = t, from_f = myPublicKey, version_f = None,
      ephemeralPub_f = None, encryptPub_f = None, session_f = None, reason_f = None\<rparr>"

definition rejectFrame :: "string \<Rightarrow> string \<Rightarrow> Frame" where
  "rejectFrame myPublicKey why = (frame myPublicKey ''reject'')\<lparr>reason_f := Some why\<rparr>"

text \<open>The shared state a connection handler works on, and the state of one connection.\<close>

record Listener =
  rateLimiter :: RateLimiter
  replayProtector :: ReplayProtector
  trust :: TrustStore

record Connection =
  handshakeComplete :: bool
  negotiatedVersion :: "int option"
  peerEphemeralPub :: "string option"
  buffer :: string

text \<open>
  What one \<^verbatim>\<open>data\<close> event leaves behind: the error the listener threw and did not catch,
  if any, the frames written to the socket, and the state.
\<close>

datatype HandlerError = TypeError

record Outcome =
  thrown :: "HandlerError option"
  written :: "Frame list"
  listener :: Listener
  connection :: Connection

text \<open>
  What \<^verbatim>\<open>JSON.parse(line)\<close> can give: a \<^verbatim>\<open>SyntaxError\<close>; the value \<^verbatim>\<open>null\<close>; a value whose
  properties have the types that \<^verbatim>\<open>P2PMessage\<close> declares (\<open>Parsed\<close>); or any other
  value, such as a number or an object without \<^verbatim>\<open>from\<close> (\<open>IllTyped\<close>).
\<close>

datatype ParseResult = SyntaxError | JsonNull | IllTyped | Parsed P2PMessage

text \<open>
  What the engine calls and does not define: \<^verbatim>\<open>JSON.parse\<close>, the functions of
  \<^verbatim>\<open>identity.ts\<close> (a throw is \<open>None\<close>, or \<open>Inl\<close> with the error's text), the addition of
  two numbers, the local identity's encryption key, the connection's ephemeral key pair,
  and the injection handler (\<open>False\<close> when it rejects). What the handler does with an
  ill-typed value depends on how the functions of \<^verbatim>\<open>identity.ts\<close> treat missing
  arguments, and is a parameter too (\<open>onIllTyped\<close>).
\<close>

record Env =
  JSON_parse :: "string \<Rightarrow> ParseResult"
  verifySignature :: "P2PMessage \<Rightarrow> string \<Rightarrow> bool"
  parseInviteToken :: "nat \<Rightarrow> string \<Rightarrow> string + InviteToken"
  verifyKeyRotation :: "KeyRotation \<Rightarrow> bool"
  shortKey :: "string \<Rightarrow> string"
  addNumbers :: "int \<Rightarrow> int \<Rightarrow> int"
  decryptWithEphemeral :: "string \<Rightarrow> string \<Rightarrow> string \<Rightarrow> string option"
  decryptMessage :: "string \<Rightarrow> string \<Rightarrow> string option"
  onInject :: "string \<Rightarrow> string \<Rightarrow> string \<Rightarrow> bool"
  onIllTyped :: "string \<Rightarrow> Listener \<times> Connection \<Rightarrow> Outcome"
  identityEncryptPub :: string
  ephemeralPublicKey :: string
  ephemeralPrivateKey :: string

text \<open>
  The clock readings of one \<^verbatim>\<open>data\<close> event, one for each place that calls
  \<^verbatim>\<open>Date.now()\<close>: the replay check and the cleanup it may run, the rate limiter, the
  expiry test of \<^verbatim>\<open>parseInviteToken\<close>, the id and the creation time of a new grant, and
  the grace test of \<^verbatim>\<open>isAuthorized\<close>.
\<close>

record Clock =
  atReplay :: nat
  atCleanup :: nat
  atRateLimit :: nat
  atToken :: nat
  atGrantId :: nat
  atGrantCreated :: nat
  atAuthorize :: nat

definition newConnection :: Connection where
  "newConnection = \<lparr>handshakeComplete = False, negotiatedVersion = None,
                    peerEphemeralPub = None, buffer = ''''\<rparr>"

definition newline :: char where
  "newline = CHR 0x0A"

text \<open>\<^verbatim>\<open>Math.max(...vs)\<close> on a list that is not empty.\<close>

fun maxOf :: "int \<Rightarrow> int list \<Rightarrow> int" where
  "maxOf m [] = m"
| "maxOf m (x # xs) = maxOf (max m x) xs"

subsection \<open>The responder: one \<^verbatim>\<open>data\<close> event of \<^verbatim>\<open>handleConnection\<close>\<close>

text \<open>The branch for \<^verbatim>\<open>hello\<close> before the handshake is complete.\<close>

definition handleHello ::
  "Env \<Rightarrow> string \<Rightarrow> Listener \<times> Connection \<Rightarrow> P2PMessage \<Rightarrow> Frame list \<times> Listener \<times> Connection" where
  "handleHello env myPublicKey lc msg =
     (let (l, c) = lc;
          commonVersions = filter (\<lambda>v. v \<ge> MIN_PROTOCOL_VERSION \<and> v \<le> PROTOCOL_VERSION)
                             (case versions_m msg of None \<Rightarrow> [1] | Some vs \<Rightarrow> vs)
      in case commonVersions of
           [] \<Rightarrow> ([rejectFrame myPublicKey ''no common protocol version''], l, c)
         | v # vs \<Rightarrow>
             let negotiated = maxOf v vs
             in ([(frame myPublicKey ''hello-ack'')
                    \<lparr>version_f := Some negotiated,
                     ephemeralPub_f := Some (ephemeralPublicKey env)\<rparr>],
                 l,
                 c\<lparr>negotiatedVersion := Some negotiated,
                   peerEphemeralPub := ephemeralPub_m msg,
                   handshakeComplete := True\<rparr>))"

text \<open>The branch for \<^verbatim>\<open>key-rotation\<close>, taken before any signature or replay check.\<close>

definition handleRotation ::
  "Env \<Rightarrow> string \<Rightarrow> Listener \<times> Connection \<Rightarrow> KeyRotation \<Rightarrow> Frame list \<times> Listener \<times> Connection" where
  "handleRotation env myPublicKey lc rotation =
     (let (l, c) = lc;
          (ok, store) = processPeerKeyRotation (verifyKeyRotation env) (shortKey env)
                          (addNumbers env) (trust l) rotation
      in if ok then ([frame myPublicKey ''ack''], l\<lparr>trust := store\<rparr>, c)
         else ([rejectFrame myPublicKey ''invalid key rotation''], l\<lparr>trust := store\<rparr>, c))"

text \<open>
  The branch for \<^verbatim>\<open>claim\<close>, after the signature and replay checks. The \<^verbatim>\<open>try\<close> block
  of the source spans \<^verbatim>\<open>parseInviteToken\<close>, the two tests, \<^verbatim>\<open>grantAccess\<close> and
  \<^verbatim>\<open>getIdentity()!\<close>; the store is taken to be writable and the identity to be present, so
  that \<^verbatim>\<open>parseInviteToken\<close> is the only call in it that throws.
\<close>

definition handleClaim ::
  "Env \<Rightarrow> string \<Rightarrow> Clock \<Rightarrow> Listener \<times> Connection \<Rightarrow> P2PMessage \<Rightarrow> string
     \<Rightarrow> Frame list \<times> Listener \<times> Connection" where
  "handleClaim env myPublicKey clk lc msg tokenStr =
     (let (l, c) = lc;
          (allowed, rl) = RateLimiter_check (rateLimiter l) (atRateLimit clk) (from_m msg) claims;
          l1 = l\<lparr>rateLimiter := rl\<rparr>
      in if \<not> allowed then ([rejectFrame myPublicKey ''rate limited''], l1, c)
         else
           case parseInviteToken env (atToken clk) tokenStr of
             Inl err \<Rightarrow> ([rejectFrame myPublicKey (''invalid token: '' @ err)], l1, c)
           | Inr token \<Rightarrow>
               if iss token \<noteq> myPublicKey
                 then ([rejectFrame myPublicKey ''token not issued by this peer''], l1, c)
               else if sub token \<noteq> from_m msg
                 then ([rejectFrame myPublicKey ''token not issued for you''], l1, c)
               else
                 let (grant, gs) = grantAccess (grants (trust l1)) (atGrantId clk) (atGrantCreated clk)
                                     (from_m msg) (ses token) (cap token) (encryptPub_m msg)
                 in ([(frame myPublicKey ''ack'')\<lparr>encryptPub_f := Some (identityEncryptPub env)\<rparr>],
                     l1\<lparr>trust := (trust l1)\<lparr>grants := gs\<rparr>\<rparr>, c))"

text \<open>The decryption inside the \<^verbatim>\<open>inject\<close> branch; \<open>None\<close> when it throws.\<close>

definition decryptPayload :: "Env \<Rightarrow> Listener \<Rightarrow> P2PMessage \<Rightarrow> string \<Rightarrow> string option" where
  "decryptPayload env l msg payload =
     (if v_m msg \<ge> 2 \<and> truthyStr (ephemeralPub_m msg)
      then decryptWithEphemeral env payload (ephemeralPrivateKey env) (orEmpty (ephemeralPub_m msg))
      else
        case getGrantForPeer (grants (trust l)) (from_m msg) of
          None \<Rightarrow> None
        | Some grant \<Rightarrow>
            if \<not> truthyStr (peerEncryptPub grant) then None
            else decryptMessage env payload (orEmpty (peerEncryptPub grant)))"

text \<open>The branch for \<^verbatim>\<open>inject\<close>.\<close>

definition handleInject ::
  "Env \<Rightarrow> string \<Rightarrow> Clock \<Rightarrow> Listener \<times> Connection \<Rightarrow> P2PMessage \<Rightarrow> string \<Rightarrow> string
     \<Rightarrow> Frame list \<times> Listener \<times> Connection" where
  "handleInject env myPublicKey clk lc msg payload session =
     (let (l, c) = lc;
          (allowed, rl) = RateLimiter_check (rateLimiter l) (atRateLimit clk) (from_m msg) injects;
          l1 = l\<lparr>rateLimiter := rl\<rparr>
      in if \<not> allowed
           then ([(rejectFrame myPublicKey ''rate limited'')\<lparr>session_f := Some session\<rparr>], l1, c)
         else if \<not> isAuthorized (grants (trust l1)) (atAuthorize clk) (from_m msg) session
           then ([(rejectFrame myPublicKey ''unauthorized'')\<lparr>session_f := Some session\<rparr>], l1, c)
         else
           case decryptPayload env l1 msg payload of
             None \<Rightarrow> ([(rejectFrame myPublicKey ''inject failed'')\<lparr>session_f := Some session\<rparr>], l1, c)
           | Some decryptedPayload \<Rightarrow>
               if onInject env session decryptedPayload (from_m msg)
               then ([(frame myPublicKey ''ack'')\<lparr>session_f := Some session\<rparr>], l1, c)
               else ([(rejectFrame myPublicKey ''inject failed'')\<lparr>session_f := Some session\<rparr>], l1, c))"

text \<open>The dispatch on \<^verbatim>\<open>claim\<close> and \<^verbatim>\<open>inject\<close> at the end of the handler.\<close>

definition dispatch ::
  "Env \<Rightarrow> string \<Rightarrow> Clock \<Rightarrow> Listener \<times> Connection \<Rightarrow> P2PMessage \<Rightarrow> Frame list \<times> Listener \<times> Connection" where
  "dispatch env myPublicKey clk lc msg =
     (if type_m msg = ''claim'' \<and> truthyStr (token_m msg)
        then handleClaim env myPublicKey clk lc msg (orEmpty (token_m msg))
      else if type_m msg = ''inject'' \<and> truthyStr (payload_m msg) \<and> truthyStr (session_m msg)
        then handleInject env myPublicKey clk lc msg (orEmpty (payload_m msg)) (orEmpty (session_m msg))
      else ([], fst lc, snd lc))"

text \<open>A parsed frame: handshake, then the signature and replay gates, then the dispatch.\<close>

definition handleMessage ::
  "Env \<Rightarrow> string \<Rightarrow> Clock \<Rightarrow> Listener \<times> Connection \<Rightarrow> P2PMessage \<Rightarrow> Frame list \<times> Listener \<times> Connection" where
  "handleMessage env myPublicKey clk lc msg =
     (let (l, c) = lc
      in if type_m msg = ''hello'' \<and> \<not> handshakeComplete c then handleHello env myPublicKey lc msg
         else if type_m msg \<noteq> ''hello'' \<and> type_m msg \<noteq> ''hello-ack'' then
           (case (if type_m msg = ''key-rotation'' then keyRotation_m msg else None) of
              Some rotation \<Rightarrow> handleRotation env myPublicKey lc rotation
            | None \<Rightarrow>
                if \<not> verifySignature env msg (from_m msg)
                  then ([], l\<lparr>rateLimiter :=
                               snd (RateLimiter_check (rateLimiter l) (atRateLimit clk) (from_m msg)
                                      invalidMessages)\<rparr>, c)
                else
                  let (fresh, rp) = ReplayProtector_check (replayProtector l) (atReplay clk)
                                      (atCleanup clk) (nonce_m msg) (ts_m msg);
                      l1 = l\<lparr>replayProtector := rp\<rparr>
                  in if \<not> fresh
                       then ([], l1\<lparr>rateLimiter :=
                                     snd (RateLimiter_check (rateLimiter l1) (atRateLimit clk)
                                            (from_m msg) invalidMessages)\<rparr>, c)
                     else dispatch env myPublicKey clk (l1, c) msg)
         else dispatch env myPublicKey clk lc msg)"

text \<open>
  The \<^verbatim>\<open>data\<close> listener: append to the buffer, take the first line when there is one and
  parse it. A \<^verbatim>\<open>SyntaxError\<close> is caught and the listener returns silently. On \<^verbatim>\<open>null\<close>
  the first property access, \<^verbatim>\<open>msg.type\<close>, throws a \<^verbatim>\<open>TypeError\<close> that nothing catches
  (the listener is \<^verbatim>\<open>async\<close>: its promise is rejected).
\<close>

definition onData ::
  "Env \<Rightarrow> string \<Rightarrow> Clock \<Rightarrow> Listener \<times> Connection \<Rightarrow> string \<Rightarrow> Outcome" where
  "onData env myPublicKey clk lc data =
     (let (l, c) = lc;
          buf = buffer c @ data
      in if newline \<notin> set buf
           then \<lparr>thrown = None, written = [], listener = l, connection = c\<lparr>buffer := buf\<rparr>\<rparr>
         else
           let line = takeWhile (\<lambda>ch. ch \<noteq> newline) buf;
               c1 = c\<lparr>buffer := drop (length line + 1) buf\<rparr>
           in case JSON_parse env line of
                SyntaxError \<Rightarrow> \<lparr>thrown = None, written = [], listener = l, connection = c1\<rparr>
              | JsonNull \<Rightarrow> \<lparr>thrown = Some TypeError, written = [], listener = l, connection = c1\<rparr>
              | IllTyped \<Rightarrow> onIllTyped env line (l, c1)
              | Parsed msg \<Rightarrow>
                  (case handleMessage env myPublicKey clk (l, c1) msg of
                     (frames, l', c') \<Rightarrow>
                       \<lparr>thrown = None, written = frames, listener = l', connection = c'\<rparr>))"

subsection \<open>The initiator\<close>

record SendResult =
  code :: int
  message :: "string option"

text \<open>
  How \<^verbatim>\<open>claimToken\<close> and \<^verbatim>\<open>sendP2PInject\<close> classify the frame that answers their request;
  \<open>None\<close> when the frame is neither \<^verbatim>\<open>ack\<close> nor \<^verbatim>\<open>reject\<close> and the call keeps waiting.
\<close>

definition claimOutcome :: "Frame \<Rightarrow> SendResult option" where
  "claimOutcome response =
     (if type_f response = ''ack'' then Some \<lparr>code = EXIT_OK, message = None\<rparr>
      else if type_f response = ''reject''
        then Some \<lparr>code = EXIT_REJECTED,
                   message = Some (if truthyStr (reason_f response) then orEmpty (reason_f response)
                                   else ''claim rejected'')\<rparr>
      else None)"

definition injectOutcome :: "Frame \<Rightarrow> SendResult option" where
  "injectOutcome response =
     (if type_f response = ''ack'' then Some \<lparr>code = EXIT_OK, message = None\<rparr>
      else if type_f response = ''reject''
        then Some \<lparr>code = (if reason_f response = Some ''rate limited'' then EXIT_RATE_LIMITED
                           else EXIT_REJECTED),
                   message = Some (if truthyStr (reason_f response) then orEmpty (reason_f response)
                                   else ''unauthorized'')\<rparr>
      else None)"

text \<open>
  \<^verbatim>\<open>sendP2PInject\<close> up to the point where it opens the transport. The transport actions
  taken so far are returned with the result; everything from \<^verbatim>\<open>new Hyperswarm()\<close> on
  (joining the topic, the handshake, the exchange, the timeout) is the parameter
  \<open>exchange\<close>.
\<close>

datatype TransportAction = NewSwarm | JoinTopic string

definition sendP2PInject ::
  "(Peer \<Rightarrow> string \<Rightarrow> string \<Rightarrow> SendResult) \<Rightarrow> (string \<Rightarrow> string) \<Rightarrow> string option \<Rightarrow> Peer list
     \<Rightarrow> string \<Rightarrow> string \<Rightarrow> string \<Rightarrow> TransportAction list \<times> SendResult" where
  "sendP2PInject exchange toLowerCase identity ps peerIdOrName session msg =
     (case identity of
        None \<Rightarrow> ([], \<lparr>code = EXIT_INVALID, message = Some ''No identity''\<rparr>)
      | Some myPublicKey \<Rightarrow>
          case findPeer toLowerCase ps peerIdOrName of
            None \<Rightarrow> ([], \<lparr>code = EXIT_INVALID, message = Some (''Peer not found: '' @ peerIdOrName)\<rparr>)
          | Some peer \<Rightarrow>
              if ''*'' \<notin> set (sessions_p peer) \<and> session \<notin> set (sessions_p peer)
                then ([], \<lparr>code = EXIT_REJECTED,
                           message = Some (''No access to session \"'' @ session @ ''\"'')\<rparr>)
              else if \<not> truthyStr (encryptPub_p peer)
                then ([], \<lparr>code = EXIT_INVALID,
                           message = Some ''Peer has no encryption key (claim token first)''\<rparr>)
              else ([NewSwarm, JoinTopic (publicKey_p peer)], exchange peer session msg))"

subsection \<open>Concrete surroundings for evaluated runs\<close>

text \<open>
  An environment in which every line parses to the frame \<open>msg\<close>, every token string parses
  to \<open>token\<close>, every signature verifies, and decryption is the identity.
\<close>

definition wireEnv :: "P2PMessage \<Rightarrow> InviteToken \<Rightarrow> Env" where
  "wireEnv msg token =
     \<lparr>JSON_parse = (\<lambda>line. Parsed msg),
      verifySignature = (\<lambda>m k. True),
      parseInviteToken = (\<lambda>now s. Inr token),
      verifyKeyRotation = signatureVerifies,
      shortKey = keyPrefix,
      addNumbers = (+),
      decryptWithEphemeral = (\<lambda>payload priv pub. Some payload),
      decryptMessage = (\<lambda>payload pub. Some payload),
      onInject = (\<lambda>session plaintext sender. True),
      onIllTyped = (\<lambda>line lc. \<lparr>thrown = None, written = [], listener = fst lc,
                                    connection = snd lc\<rparr>),
      identityEncryptPub = ''my-enc'',
      ephemeralPublicKey = ''eph-pub'',
      ephemeralPrivateKey = ''eph-priv''\<rparr>"

text \<open>The same environment with a parser that accepts no line.\<close>

definition deafEnv :: "P2PMessage \<Rightarrow> InviteToken \<Rightarrow> Env" where
  "deafEnv msg token = (wireEnv msg token)\<lparr>JSON_parse := (\<lambda>line. SyntaxError)\<rparr>"

definition freshListener :: Listener where
  "freshListener = \<lparr>rateLimiter = new_RateLimiter, replayProtector = new_ReplayProtector,
                    trust = \<lparr>grants = [], peers = []\<rparr>\<rparr>"

text \<open>A claim frame sent by \<open>B\<close>, and tokens made out to \<open>A\<close> and to \<open>B\<close>.\<close>

definition claimFromB :: P2PMessage where
  "claimFromB =
     \<lparr>v_m = 2, type_m = ''claim'', from_m = ''B'', nonce_m = ''n1'', ts_m = 1000, sig_m = ''sig'',
      versions_m = None, version_m = None, ephemeralPub_m = None, encryptPub_m = Some ''b-enc'',
      token_m = Some ''tok'', session_m = None, payload_m = None, keyRotation_m = None,
      reason_m = None\<rparr>"

definition tokenFor :: "string \<Rightarrow> string \<Rightarrow> InviteToken" where
  "tokenFor issuer subject =
     \<lparr>iss = issuer, sub = subject, ses = [''dev''], cap = [''inject''], iat = 0, exp = 100000,
      nonce_t = ''tn'', sig_t = ''ts''\<rparr>"

text \<open>The same environment with a verifier that accepts no signature.\<close>

definition forgedEnv :: "P2PMessage \<Rightarrow> InviteToken \<Rightarrow> Env" where
  "forgedEnv msg token = (wireEnv msg token)\<lparr>verifySignature := (\<lambda>m k. False)\<rparr>"

text \<open>An exchange in which the peer never answers.\<close>

definition offlineExchange :: "Peer \<Rightarrow> string \<Rightarrow> string \<Rightarrow> SendResult" where
  "offlineExchange peer session msg = \<lparr>code = EXIT_OFFLINE, message = Some ''Peer offline (timeout)''\<rparr>"

text \<open>A clock that stands still during the event.\<close>

definition steady :: "nat \<Rightarrow> Clock" where
  "steady t = \<lparr>atReplay = t, atCleanup = t, atRateLimit = t, atToken = t, atGrantId = t,
               atGrantCreated = t, atAuthorize = t\<rparr>"


section \<open>The rate limiter\<close>

lemma map_of_update_same: "map_of (AList.update k v al) k = Some v"
  by (simp add: update_conv')

lemma getState_fst: "fst (getState rl p c) = stateOf rl p c"
  by (simp add: getState_def stateOf_def Let_def split: option.splits)

lemma stateOf_getState: "stateOf (snd (getState rl p c)) p' c' = stateOf rl p' c'"
  by (auto simp: getState_def stateOf_def Let_def update_conv' split: option.splits)

lemma limits_getState: "limits (snd (getState rl p c)) = limits rl"
  by (simp add: getState_def Let_def)

lemma stateOf_putState:
  "stateOf (putState rl p c st) p' c' = (if p' = p \<and> c' = c then st else stateOf rl p' c')"
  by (auto simp: putState_def stateOf_def Let_def update_conv' split: option.splits)

lemma limits_putState: "limits (putState rl p c st) = limits rl"
  by (simp add: putState_def Let_def)

lemma getState_present:
  "map_of (state rl) p = Some ps \<Longrightarrow> map_of ps c = Some st \<Longrightarrow> getState rl p c = (st, rl)"
  by (simp add: getState_def Let_def update_triv)

lemma putState_present:
  "map_of (state rl) p = Some ps \<Longrightarrow> map_of ps c = Some st \<Longrightarrow> putState rl p c st = rl"
  by (simp add: putState_def Let_def update_triv)

lemma RateLimiter_check_fst:
  "fst (RateLimiter_check rl now p c) = fst (checkEntry (limits rl c) now (stateOf rl p c))"
  by (simp add: RateLimiter_check_def Let_def case_prod_beta getState_fst)

lemma RateLimiter_check_stateOf:
  "stateOf (snd (RateLimiter_check rl now p c)) p' c' =
     (if p' = p \<and> c' = c then snd (checkEntry (limits rl c) now (stateOf rl p c))
      else stateOf rl p' c')"
  by (simp add: RateLimiter_check_def Let_def case_prod_beta stateOf_putState getState_fst
      stateOf_getState limits_getState)

lemma RateLimiter_check_limits: "limits (snd (RateLimiter_check rl now p c)) = limits rl"
  by (simp add: RateLimiter_check_def Let_def case_prod_beta limits_putState limits_getState)

lemma blocked_entry_present:
  assumes "blockedUntil (stateOf rl p c) = Some b"
  shows "\<exists>ps. map_of (state rl) p = Some ps \<and> map_of ps c = Some (stateOf rl p c)"
  using assms by (auto simp: stateOf_def emptyState_def split: option.splits)

lemma RateLimiter_check_blocked:
  assumes "blockedUntil (stateOf rl p c) = Some b" "int now < b"
  shows "RateLimiter_check rl now p c = (False, rl)"
proof -
  obtain ps where ps: "map_of (state rl) p = Some ps" "map_of ps c = Some (stateOf rl p c)"
    using blocked_entry_present [OF assms(1)] by blast
  have bn: "blockedNow (stateOf rl p c) now"
    using assms by (auto simp: blockedNow_def)
  show ?thesis
    using bn by (simp add: RateLimiter_check_def getState_present [OF ps] checkEntry_def putState_present [OF ps])
qed


lemma blockedNow_iff: "blockedNow st now \<longleftrightarrow> (\<exists>b. blockedUntil st = Some b \<and> int now < b)"
  by (auto simp: blockedNow_def split: option.splits)

lemma checkEntry_open:
  assumes "\<not> blockedNow st now"
  shows "checkEntry cfg now st =
    (let kept = filter (\<lambda>ts. int now - int ts < windowMs cfg)
                  (if blockExpired st now then [] else requests st);
         bu = (if blockExpired st now then None else blockedUntil st)
     in if maxRequests cfg \<le> int (length kept)
        then (False, \<lparr>requests = kept, blockedUntil = Some (int now + blockDurationMs cfg)\<rparr>)
        else (True, \<lparr>requests = kept @ [now], blockedUntil = bu\<rparr>))"
  using assms by (cases st) (simp add: checkEntry_def Let_def)

text \<open>
  Claim C4, as amended. For every peer \<open>p\<close> and limit class \<open>c\<close>, \<^verbatim>\<open>check(p, c)\<close> at clock
  reading \<open>now\<close>:
  \<^item> if the entry is blocked and \<open>now < blockedUntil\<close>, answers false and leaves the whole
    limiter as it was;
  \<^item> otherwise, when a block had expired (\<open>blockedUntil \<le> now\<close>), it first clears the
    block and \<^emph>\<open>all\<close> recorded requests; it then keeps only the requests \<open>ts\<close> with
    \<open>now - ts < window\<close>; if at least \<open>maxRequests\<close> remain it sets
    \<open>blockedUntil = now + blockDuration\<close> and answers false, else it appends \<open>now\<close>
    and answers true;
  \<^item> the entries of other peers and classes, and the limits, are untouched.
\<close>

theorem rate_check_semantics:
  "((\<exists>b. blockedUntil (stateOf rl p c) = Some b \<and> int now < b) \<longrightarrow>
      RateLimiter_check rl now p c = (False, rl)) \<and>
   (\<not> (\<exists>b. blockedUntil (stateOf rl p c) = Some b \<and> int now < b) \<longrightarrow>
      (let expired = (\<exists>b. blockedUntil (stateOf rl p c) = Some b \<and> b \<noteq> 0 \<and> b \<le> int now);
           kept = filter (\<lambda>ts. int now - int ts < windowMs (limits rl c))
                    (if expired then [] else requests (stateOf rl p c));
           res = RateLimiter_check rl now p c
       in if maxRequests (limits rl c) \<le> int (length kept)
          then fst res = False \<and>
               stateOf (snd res) p c =
                 \<lparr>requests = kept, blockedUntil = Some (int now + blockDurationMs (limits rl c))\<rparr>
          else fst res = True \<and>
               stateOf (snd res) p c =
                 \<lparr>requests = kept @ [now],
                  blockedUntil = (if expired then None else blockedUntil (stateOf rl p c))\<rparr>)) \<and>
   (\<forall>p' c'. (p', c') \<noteq> (p, c) \<longrightarrow>
      stateOf (snd (RateLimiter_check rl now p c)) p' c' = stateOf rl p' c') \<and>
   limits (snd (RateLimiter_check rl now p c)) = limits rl"
proof (intro conjI)
  show "(\<exists>b. blockedUntil (stateOf rl p c) = Some b \<and> int now < b) \<longrightarrow>
      RateLimiter_check rl now p c = (False, rl)"
    using RateLimiter_check_blocked by blast
next
  have ex: "blockExpired (stateOf rl p c) now \<longleftrightarrow>
      (\<exists>b. blockedUntil (stateOf rl p c) = Some b \<and> b \<noteq> 0 \<and> b \<le> int now)"
    by (auto simp: blockExpired_def split: option.splits)
  show "\<not> (\<exists>b. blockedUntil (stateOf rl p c) = Some b \<and> int now < b) \<longrightarrow>
      (let expired = (\<exists>b. blockedUntil (stateOf rl p c) = Some b \<and> b \<noteq> 0 \<and> b \<le> int now);
           kept = filter (\<lambda>ts. int now - int ts < windowMs (limits rl c))
                    (if expired then [] else requests (stateOf rl p c));
           res = RateLimiter_check rl now p c
       in if maxRequests (limits rl c) \<le> int (length kept)
          then fst res = False \<and>
               stateOf (snd res) p c =
                 \<lparr>requests = kept, blockedUntil = Some (int now + blockDurationMs (limits rl c))\<rparr>
          else fst res = True \<and>
               stateOf (snd res) p c =
                 \<lparr>requests = kept @ [now],
                  blockedUntil = (if expired then None else blockedUntil (stateOf rl p c))\<rparr>)"
  proof
    assume "\<not> (\<exists>b. blockedUntil (stateOf rl p c) = Some b \<and> int now < b)"
    then have nb: "\<not> blockedNow (stateOf rl p c) now"
      by (simp add: blockedNow_iff)
    show "(let expired = (\<exists>b. blockedUntil (stateOf rl p c) = Some b \<and> b \<noteq> 0 \<and> b \<le> int now);
           kept = filter (\<lambda>ts. int now - int ts < windowMs (limits rl c))
                    (if expired then [] else requests (stateOf rl p c));
           res = RateLimiter_check rl now p c
       in if maxRequests (limits rl c) \<le> int (length kept)
          then fst res = False \<and>
               stateOf (snd res) p c =
                 \<lparr>requests = kept, blockedUntil = Some (int now + blockDurationMs (limits rl c))\<rparr>
          else fst res = True \<and>
               stateOf (snd res) p c =
                 \<lparr>requests = kept @ [now],
                  blockedUntil = (if expired then None else blockedUntil (stateOf rl p c))\<rparr>)"
      unfolding ex [symmetric]
      by (simp add: RateLimiter_check_fst RateLimiter_check_stateOf checkEntry_open [OF nb] Let_def)
  qed
next
  show "\<forall>p' c'. (p', c') \<noteq> (p, c) \<longrightarrow>
      stateOf (snd (RateLimiter_check rl now p c)) p' c' = stateOf rl p' c'"
    by (simp add: RateLimiter_check_stateOf)
next
  show "limits (snd (RateLimiter_check rl now p c)) = limits rl"
    by (rule RateLimiter_check_limits)
qed

lemma runChecks_length: "length (fst (runChecks rl calls)) = length calls"
  by (induction calls arbitrary: rl) (auto simp: case_prod_beta Let_def)

lemma runChecks_blocked:
  assumes "blockedUntil (stateOf rl p c) = Some B"
      and "\<forall>call \<in> set calls. snd call = (p, c) \<longrightarrow> int (fst call) < B"
  shows "stateOf (snd (runChecks rl calls)) p c = stateOf rl p c \<and>
         (\<forall>(call, ok) \<in> set (zip calls (fst (runChecks rl calls))). snd call = (p, c) \<longrightarrow> \<not> ok)"
  using assms
proof (induction calls arbitrary: rl)
  case Nil
  then show ?case by simp
next
  case (Cons call calls)
  obtain t p' c' where call: "call = (t, p', c')" by (cases call) auto
  let ?r = "RateLimiter_check rl t p' c'"
  have keep: "stateOf (snd ?r) p c = stateOf rl p c \<and> (p' = p \<and> c' = c \<longrightarrow> \<not> fst ?r)"
  proof (cases "p' = p \<and> c' = c")
    case True
    then have "int t < B" using Cons.prems(2) call by simp
    then have "?r = (False, rl)"
      using RateLimiter_check_blocked [OF Cons.prems(1)] True by simp
    then show ?thesis using True by simp
  next
    case False
    then show ?thesis by (auto simp: RateLimiter_check_stateOf)
  qed
  have b1: "blockedUntil (stateOf (snd ?r) p c) = Some B"
    using keep Cons.prems(1) by simp
  have rest: "\<forall>call \<in> set calls. snd call = (p, c) \<longrightarrow> int (fst call) < B"
    using Cons.prems(2) by simp
  note IH = Cons.IH [OF b1 rest]
  show ?case
    using IH keep by (auto simp: call case_prod_beta Let_def)
qed


theorem rate_check_semantics_witness:
  "RateLimiter_check
     \<lparr>limits = DEFAULT_LIMITS,
      state = [(''p'', [(claims, \<lparr>requests = [1, 2], blockedUntil = Some 10\<rparr>)])]\<rparr> 5 ''p'' claims
   = (False, \<lparr>limits = DEFAULT_LIMITS,
      state = [(''p'', [(claims, \<lparr>requests = [1, 2], blockedUntil = Some 10\<rparr>)])]\<rparr>) \<and>
   stateOf (snd (RateLimiter_check
     \<lparr>limits = DEFAULT_LIMITS,
      state = [(''p'', [(claims, \<lparr>requests = [1, 70000], blockedUntil = None\<rparr>)])]\<rparr> 70001 ''p'' claims))
     ''p'' claims = \<lparr>requests = [70000, 70001], blockedUntil = None\<rparr>"
proof -
  let ?rl = "\<lparr>limits = DEFAULT_LIMITS,
      state = [(''p'', [(claims, \<lparr>requests = [1, 2], blockedUntil = Some 10\<rparr>)])]\<rparr>"
  let ?rl2 = "\<lparr>limits = DEFAULT_LIMITS,
      state = [(''p'', [(claims, \<lparr>requests = [1, 70000], blockedUntil = None\<rparr>)])]\<rparr>"
  have h1: "\<exists>b. blockedUntil (stateOf ?rl ''p'' claims) = Some b \<and> int 5 < b"
    by (simp add: stateOf_def)
  have h2: "\<not> (\<exists>b. blockedUntil (stateOf ?rl2 ''p'' claims) = Some b \<and> int 70001 < b)"
    by (simp add: stateOf_def)
  have s2: "stateOf ?rl2 ''p'' claims = \<lparr>requests = [1, 70000], blockedUntil = None\<rparr>"
    by (simp add: stateOf_def)
  have c1: "RateLimiter_check ?rl 5 ''p'' claims = (False, ?rl)"
    using rate_check_semantics [of ?rl "''p''" claims 5] h1 by blast
  have "let expired = (\<exists>b. blockedUntil (stateOf ?rl2 ''p'' claims) = Some b \<and> b \<noteq> 0 \<and> b \<le> int 70001);
           kept = filter (\<lambda>ts. int 70001 - int ts < windowMs (limits ?rl2 claims))
                    (if expired then [] else requests (stateOf ?rl2 ''p'' claims));
           res = RateLimiter_check ?rl2 70001 ''p'' claims
       in if maxRequests (limits ?rl2 claims) \<le> int (length kept)
          then fst res = False \<and>
               stateOf (snd res) ''p'' claims =
                 \<lparr>requests = kept, blockedUntil = Some (int 70001 + blockDurationMs (limits ?rl2 claims))\<rparr>
          else fst res = True \<and>
               stateOf (snd res) ''p'' claims =
                 \<lparr>requests = kept @ [70001],
                  blockedUntil = (if expired then None else blockedUntil (stateOf ?rl2 ''p'' claims))\<rparr>"
    using rate_check_semantics [of ?rl2 "''p''" claims 70001] h2 by blast
  then have c2: "stateOf (snd (RateLimiter_check ?rl2 70001 ''p'' claims)) ''p'' claims =
      \<lparr>requests = [70000, 70001], blockedUntil = None\<rparr>"
    unfolding s2 by (simp add: DEFAULT_LIMITS_def Let_def)
  show ?thesis
    using c1 c2 by blast
qed

text \<open>
  The claim C4 as first stated has no reset of the counter when a block expires. With a
  block shorter than the window the difference shows in the answer: after one accepted
  request at 0 and a refusal at 1 (blocked until 1001), the request recorded at 0 is still
  inside the 60000 ms window at 1001, so one request remains and the limit of 1 is
  reached; yet the call at 1001 answers true, having cleared the counter.
\<close>

theorem rate_check_counterexample:
  "RateLimiter_check \<lparr>limits = tightLimits, state = []\<rparr> 0 ''p'' injects =
     (True, \<lparr>limits = tightLimits,
             state = [(''p'', [(injects, \<lparr>requests = [0], blockedUntil = None\<rparr>)])]\<rparr>) \<and>
   RateLimiter_check
     \<lparr>limits = tightLimits,
      state = [(''p'', [(injects, \<lparr>requests = [0], blockedUntil = None\<rparr>)])]\<rparr> 1 ''p'' injects =
     (False, \<lparr>limits = tightLimits,
              state = [(''p'', [(injects, \<lparr>requests = [0], blockedUntil = Some 1001\<rparr>)])]\<rparr>) \<and>
   int 1001 - int 0 < windowMs (tightLimits injects) \<and>
   maxRequests (tightLimits injects) \<le> int (length [0::nat]) \<and>
   RateLimiter_check
     \<lparr>limits = tightLimits,
      state = [(''p'', [(injects, \<lparr>requests = [0], blockedUntil = Some 1001\<rparr>)])]\<rparr> 1001 ''p'' injects =
     (True, \<lparr>limits = tightLimits,
             state = [(''p'', [(injects, \<lparr>requests = [1001], blockedUntil = None\<rparr>)])]\<rparr>)"
  by (simp add: RateLimiter_check_def getState_def putState_def checkEntry_def blockedNow_def
      blockExpired_def emptyState_def tightLimits_def Let_def)

text \<open>
  When every recorded request is at least a window older than the end of the block (as
  after a block set by \<^verbatim>\<open>check\<close> itself with \<open>blockDuration \<ge> window\<close>, which the default
  limits satisfy), the reset on expiry drops nothing that the window would have kept.
\<close>

lemma expired_reset_matches_window:
  assumes "blockedUntil st = Some b" "b \<le> int now"
      and "\<forall>ts \<in> set (requests st). int ts + windowMs cfg \<le> b"
  shows "filter (\<lambda>ts. int now - int ts < windowMs cfg) (requests st) = []"
  using assms by (auto simp: filter_empty_conv)


text \<open>
  Claim C5. Once \<^verbatim>\<open>check(p, c)\<close> has answered false with \<open>blockedUntil = B\<close>, then in any
  further run of \<^verbatim>\<open>check\<close> calls (for any peers and classes) in which every call for
  \<open>(p, c)\<close> is made while \<open>now < B\<close>, each call for \<open>(p, c)\<close> answers false, and the entry
  of \<open>(p, c)\<close> (its \<open>blockedUntil = B\<close> and its recorded requests) is left as it was.
\<close>

theorem rate_block_monotone:
  assumes "RateLimiter_check rl t0 p c = (False, rl1)"
      and "blockedUntil (stateOf rl1 p c) = Some B"
      and "\<forall>call \<in> set calls. snd call = (p, c) \<longrightarrow> int (fst call) < B"
  shows "stateOf (snd (runChecks rl1 calls)) p c = stateOf rl1 p c \<and>
         blockedUntil (stateOf (snd (runChecks rl1 calls)) p c) = Some B \<and>
         length (fst (runChecks rl1 calls)) = length calls \<and>
         (\<forall>(call, ok) \<in> set (zip calls (fst (runChecks rl1 calls))). snd call = (p, c) \<longrightarrow> \<not> ok)"
  using runChecks_blocked [OF assms(2,3)] assms(2) runChecks_length [of rl1 calls] by simp

theorem rate_block_monotone_witness:
  "RateLimiter_check
     \<lparr>limits = DEFAULT_LIMITS,
      state = [(''p'', [(claims, \<lparr>requests = [0, 1, 2, 3, 4], blockedUntil = None\<rparr>)])]\<rparr> 5 ''p'' claims
   = (False, \<lparr>limits = DEFAULT_LIMITS,
      state = [(''p'', [(claims, \<lparr>requests = [0, 1, 2, 3, 4], blockedUntil = Some 300005\<rparr>)])]\<rparr>) \<and>
   fst (runChecks \<lparr>limits = DEFAULT_LIMITS,
      state = [(''p'', [(claims, \<lparr>requests = [0, 1, 2, 3, 4], blockedUntil = Some 300005\<rparr>)])]\<rparr>
      [(6, ''p'', claims), (7, ''q'', claims), (300004, ''p'', claims)]) = [False, True, False] \<and>
   blockedUntil (stateOf (snd (runChecks \<lparr>limits = DEFAULT_LIMITS,
      state = [(''p'', [(claims, \<lparr>requests = [0, 1, 2, 3, 4], blockedUntil = Some 300005\<rparr>)])]\<rparr>
      [(6, ''p'', claims), (7, ''q'', claims), (300004, ''p'', claims)])) ''p'' claims) = Some 300005"
proof -
  let ?rl = "\<lparr>limits = DEFAULT_LIMITS,
      state = [(''p'', [(claims, \<lparr>requests = [0, 1, 2, 3, 4], blockedUntil = None\<rparr>)])]\<rparr>"
  let ?rl1 = "\<lparr>limits = DEFAULT_LIMITS,
      state = [(''p'', [(claims, \<lparr>requests = [0, 1, 2, 3, 4], blockedUntil = Some 300005\<rparr>)])]\<rparr>"
  let ?calls = "[(6, ''p'', claims), (7, ''q'', claims), (300004::nat, ''p'', claims)]"
  have h1: "RateLimiter_check ?rl 5 ''p'' claims = (False, ?rl1)"
    by (simp add: RateLimiter_check_def getState_def putState_def checkEntry_def blockedNow_def
        blockExpired_def DEFAULT_LIMITS_def Let_def)
  have h2: "blockedUntil (stateOf ?rl1 ''p'' claims) = Some 300005"
    by (simp add: stateOf_def)
  have h3: "\<forall>call \<in> set ?calls. snd call = (''p'', claims) \<longrightarrow> int (fst call) < 300005"
    by simp
  have ev: "fst (runChecks ?rl1 ?calls) = [False, True, False]"
    by (simp add: RateLimiter_check_def getState_def putState_def checkEntry_def blockedNow_def
        blockExpired_def DEFAULT_LIMITS_def emptyState_def Let_def)
  have r: "blockedUntil (stateOf (snd (runChecks ?rl1 ?calls)) ''p'' claims) = Some 300005"
    using rate_block_monotone [OF h1 h2 h3] by blast
  show ?thesis
    using h1 ev r by blast
qed

section \<open>The replay protector\<close>

lemma map_of_filter_keep:
  "map_of al k = Some v \<Longrightarrow> P (k, v) \<Longrightarrow> map_of (filter P al) k = Some v"
  by (induction al) (auto split: if_splits)

lemma map_of_filter_None:
  "map_of al k = None \<Longrightarrow> map_of (filter P al) k = None"
  by (induction al) (auto split: if_splits)

lemma map_of_filter_drop:
  "map_of al k = Some v \<Longrightarrow> distinct (map fst al) \<Longrightarrow> \<not> P (k, v) \<Longrightarrow>
   map_of (filter P al) k = None"
proof (induction al)
  case Nil
  then show ?case by simp
next
  case (Cons a al)
  show ?case
  proof (cases "fst a = k")
    case True
    then have "a = (k, v)" using Cons.prems(1) by (cases a) auto
    moreover have "map_of al k = None"
      using Cons.prems(2) True by (auto simp: map_of_eq_None_iff)
    ultimately show ?thesis
      using Cons.prems(3) by (simp add: map_of_filter_None)
  next
    case False
    then have "map_of al k = Some v" using Cons.prems(1) by (cases a) auto
    from Cons.IH [OF this] Cons.prems(2,3) False show ?thesis
      by (cases a) auto
  qed
qed

lemma update_absent: "map_of al k = None \<Longrightarrow> AList.update k v al = al @ [(k, v)]"
  by (induction al) (auto split: if_splits)

lemma maxAge_cleanup [simp]: "maxAgeMs (ReplayProtector_cleanup rp now) = maxAgeMs rp"
  and maxSkew_cleanup [simp]: "maxClockSkewMs (ReplayProtector_cleanup rp now) = maxClockSkewMs rp"
  by (simp_all add: ReplayProtector_cleanup_def Let_def)

lemma maxAge_check [simp]: "maxAgeMs (snd (ReplayProtector_check rp now now' n ts)) = maxAgeMs rp"
  and maxSkew_check [simp]:
    "maxClockSkewMs (snd (ReplayProtector_check rp now now' n ts)) = maxClockSkewMs rp"
  by (simp_all add: ReplayProtector_check_def Let_def)

lemma replay_check_reject:
  assumes "ts < int now - maxAgeMs rp \<or> ts > int now + maxClockSkewMs rp \<or>
           map_of (seenNonces rp) n \<noteq> None"
  shows "ReplayProtector_check rp now now' n ts = (False, rp)"
  using assms by (auto simp: ReplayProtector_check_def)

lemma replay_check_true_iff:
  "fst (ReplayProtector_check rp now now' n ts) \<longleftrightarrow>
     \<not> ts < int now - maxAgeMs rp \<and> \<not> ts > int now + maxClockSkewMs rp \<and>
     map_of (seenNonces rp) n = None"
  by (auto simp: ReplayProtector_check_def Let_def)

text \<open>
  After an accepted check the nonce is in the table, unless the table had reached 10000
  entries and the cleanup's clock reading finds the timestamp older than \<open>maxAgeMs\<close>.
\<close>

lemma replay_check_recorded:
  assumes "fst (ReplayProtector_check rp now now' n ts)"
      and "length (seenNonces rp) < 10000 \<or> \<not> ts < int now' - maxAgeMs rp"
  shows "map_of (seenNonces (snd (ReplayProtector_check rp now now' n ts))) n = Some ts"
proof -
  have ab: "map_of (seenNonces rp) n = None"
    using assms(1) by (simp add: replay_check_true_iff)
  have up: "map_of (AList.update n ts (seenNonces rp)) n = Some ts"
    by (simp add: update_conv')
  have len: "length (AList.update n ts (seenNonces rp)) = Suc (length (seenNonces rp))"
    by (simp add: update_absent [OF ab])
  show ?thesis
  proof (cases "length (seenNonces rp) < 10000")
    case True
    then show ?thesis
      using assms(1) up len by (auto simp: ReplayProtector_check_def Let_def split: if_splits)
  next
    case False
    then have keep: "\<not> ts < int now' - maxAgeMs rp" using assms(2) by simp
    have "map_of (filter (\<lambda>(nonce, t). \<not> t < int now' - maxAgeMs rp)
                    (AList.update n ts (seenNonces rp))) n = Some ts"
      using up keep by (auto intro!: map_of_filter_keep)
    then show ?thesis
      using assms(1) up
      by (auto simp: ReplayProtector_check_def ReplayProtector_cleanup_def Let_def split: if_splits)
  qed
qed

lemma replay_check_dropped:
  assumes "fst (ReplayProtector_check rp now now' n ts)"
      and "10000 \<le> length (seenNonces rp)" "ts < int now' - maxAgeMs rp"
  shows "map_of (seenNonces (snd (ReplayProtector_check rp now now' n ts))) n = None"
proof -
  have ab: "map_of (seenNonces rp) n = None"
    using assms(1) by (simp add: replay_check_true_iff)
  have app: "AList.update n ts (seenNonces rp) = seenNonces rp @ [(n, ts)]"
    by (rule update_absent [OF ab])
  have "map_of (filter (\<lambda>(nonce, t). \<not> t < int now' - maxAgeMs rp) (seenNonces rp @ [(n, ts)])) n = None"
    using assms(3) ab by (simp add: map_of_filter_None)
  then show ?thesis
    using assms(1,2) app
    by (auto simp: ReplayProtector_check_def ReplayProtector_cleanup_def Let_def split: if_splits)
qed

text \<open>
  The invariant of a frame accepted earlier: at the last clock reading \<open>t\<close> it is still
  recorded, or it is already older than \<open>maxAgeMs\<close>.
\<close>

lemma accepted_inv:
  assumes "fst (ReplayProtector_check rp now now' n ts)"
  shows "map_of (seenNonces (snd (ReplayProtector_check rp now now' n ts))) n = Some ts \<or>
         ts < int now' - maxAgeMs rp"
  using replay_check_recorded [OF assms] by blast

lemma cleanup_inv:
  assumes "map_of (seenNonces rp) n = Some ts \<or> ts < int t - maxAgeMs rp" "t \<le> t'"
  shows "map_of (seenNonces (ReplayProtector_cleanup rp t')) n = Some ts \<or> ts < int t' - maxAgeMs rp"
proof (cases "ts < int t' - maxAgeMs rp")
  case True
  then show ?thesis by simp
next
  case False
  then have "map_of (seenNonces rp) n = Some ts" using assms by auto
  then have "map_of (seenNonces (ReplayProtector_cleanup rp t')) n = Some ts"
    using False by (auto simp: ReplayProtector_cleanup_def Let_def intro!: map_of_filter_keep)
  then show ?thesis by simp
qed

lemma check_inv:
  assumes "map_of (seenNonces rp) n = Some ts \<or> ts < int t - maxAgeMs rp" "t \<le> a" "a \<le> b"
  shows "map_of (seenNonces (snd (ReplayProtector_check rp a b m ts'))) n = Some ts \<or>
         ts < int b - maxAgeMs rp"
proof (cases "ts < int b - maxAgeMs rp")
  case True
  then show ?thesis by simp
next
  case False
  then have rec: "map_of (seenNonces rp) n = Some ts" using assms by auto
  show ?thesis
  proof (cases "fst (ReplayProtector_check rp a b m ts')")
    case False
    then have "ReplayProtector_check rp a b m ts' = (False, rp)"
      by (auto simp: ReplayProtector_check_def Let_def split: if_splits)
    then show ?thesis using rec by simp
  next
    case True
    then have "map_of (seenNonces rp) m = None"
      by (simp add: replay_check_true_iff)
    then have mn: "m \<noteq> n" using rec by auto
    have upd: "map_of (AList.update m ts' (seenNonces rp)) n = Some ts"
      using rec mn by (simp add: update_conv')
    have "map_of (seenNonces (snd (ReplayProtector_check rp a b m ts'))) n = Some ts"
      using True upd \<open>\<not> ts < int b - maxAgeMs rp\<close>
      by (auto simp: ReplayProtector_check_def ReplayProtector_cleanup_def Let_def
          split: if_splits intro!: map_of_filter_keep)
    then show ?thesis by simp
  qed
qed

lemma maxAge_step [simp]: "maxAgeMs (replayStep rp op) = maxAgeMs rp"
  by (cases op) auto

lemma maxAge_run [simp]: "maxAgeMs (runReplay rp ops) = maxAgeMs rp"
  by (induction ops arbitrary: rp) auto

lemma run_inv:
  assumes "map_of (seenNonces rp) n = Some ts \<or> ts < int t - maxAgeMs rp" "clockOrdered t ops"
  shows "map_of (seenNonces (runReplay rp ops)) n = Some ts \<or>
         ts < int (lastClock t ops) - maxAgeMs rp"
  using assms
proof (induction ops arbitrary: rp t)
  case Nil
  then show ?case by simp
next
  case (Cons op ops)
  show ?case
  proof (cases op)
    case (OpCheck a b m ts')
    have le: "t \<le> a" "a \<le> b" and ord: "clockOrdered b ops"
      using Cons.prems(2) OpCheck by auto
    have "map_of (seenNonces (replayStep rp op)) n = Some ts \<or>
          ts < int b - maxAgeMs (replayStep rp op)"
      using check_inv [OF Cons.prems(1) le, of m ts'] OpCheck by simp
    from Cons.IH [OF this ord] show ?thesis by (simp add: OpCheck)
  next
    case (OpCleanup a)
    have le: "t \<le> a" and ord: "clockOrdered a ops"
      using Cons.prems(2) OpCleanup by auto
    have "map_of (seenNonces (replayStep rp op)) n = Some ts \<or>
          ts < int a - maxAgeMs (replayStep rp op)"
      using cleanup_inv [OF Cons.prems(1) le] OpCleanup by simp
    from Cons.IH [OF this ord] show ?thesis by (simp add: OpCleanup)
  qed
qed

text \<open>
  Claim C3, as amended. \<^verbatim>\<open>check(n, ts)\<close> at clock reading \<open>now\<close> answers false, changing
  nothing, if \<open>ts < now - maxAge\<close>, or \<open>ts > now + maxSkew\<close>, or \<open>n\<close> is already recorded.
  Otherwise it answers true, and afterwards \<open>n\<close> is recorded with \<open>ts\<close> except in one
  case: the table had reached 10000 entries and the cleanup run by the same call finds, at
  its own clock reading, \<open>ts\<close> older than \<open>maxAge\<close>; then \<open>n\<close> is forgotten at once. While
  \<open>n\<close> is recorded it is refused when presented again, whatever timestamp and clock
  readings come with it. And the frame itself (same nonce, same timestamp) is refused at
  every later clock reading, whatever checks and cleanups ran in between, as long as the
  clock does not run backwards.
\<close>

theorem replay_check_semantics:
  "((ts < int now - maxAgeMs rp \<or> ts > int now + maxClockSkewMs rp \<or>
       map_of (seenNonces rp) n \<noteq> None) \<longrightarrow>
      ReplayProtector_check rp now now' n ts = (False, rp)) \<and>
   (\<not> (ts < int now - maxAgeMs rp \<or> ts > int now + maxClockSkewMs rp \<or>
       map_of (seenNonces rp) n \<noteq> None) \<longrightarrow>
      fst (ReplayProtector_check rp now now' n ts) = True \<and>
      (map_of (seenNonces (snd (ReplayProtector_check rp now now' n ts))) n =
         (if 10000 \<le> length (seenNonces rp) \<and> ts < int now' - maxAgeMs rp then None
          else Some ts)) \<and>
      (map_of (seenNonces (snd (ReplayProtector_check rp now now' n ts))) n = Some ts \<longrightarrow>
         (\<forall>t1 t1' ts'.
            fst (ReplayProtector_check (snd (ReplayProtector_check rp now now' n ts)) t1 t1' n ts')
              = False)) \<and>
      (\<forall>ops t1 t1'. clockOrdered now' ops \<longrightarrow> lastClock now' ops \<le> t1 \<longrightarrow>
         fst (ReplayProtector_check
                (runReplay (snd (ReplayProtector_check rp now now' n ts)) ops) t1 t1' n ts)
           = False))"
proof (intro conjI impI allI)
  assume "ts < int now - maxAgeMs rp \<or> ts > int now + maxClockSkewMs rp \<or>
       map_of (seenNonces rp) n \<noteq> None"
  then show "ReplayProtector_check rp now now' n ts = (False, rp)"
    by (rule replay_check_reject)
next
  assume a: "\<not> (ts < int now - maxAgeMs rp \<or> ts > int now + maxClockSkewMs rp \<or>
       map_of (seenNonces rp) n \<noteq> None)"
  let ?rp' = "snd (ReplayProtector_check rp now now' n ts)"
  show t: "fst (ReplayProtector_check rp now now' n ts) = True"
    using a by (simp add: replay_check_true_iff)
  then have acc: "fst (ReplayProtector_check rp now now' n ts)" by simp
  show "map_of (seenNonces ?rp') n =
         (if 10000 \<le> length (seenNonces rp) \<and> ts < int now' - maxAgeMs rp then None
          else Some ts)"
    using replay_check_recorded [OF acc] replay_check_dropped [OF acc]
    by (cases "10000 \<le> length (seenNonces rp) \<and> ts < int now' - maxAgeMs rp") auto
  show "fst (ReplayProtector_check ?rp' t1 t1' n ts') = False"
    if "map_of (seenNonces ?rp') n = Some ts" for t1 t1' ts'
    using that by (simp add: replay_check_true_iff)
  show "fst (ReplayProtector_check (runReplay ?rp' ops) t1 t1' n ts) = False"
    if ord: "clockOrdered now' ops" and le: "lastClock now' ops \<le> t1" for ops t1 t1'
  proof -
    have "map_of (seenNonces ?rp') n = Some ts \<or> ts < int now' - maxAgeMs ?rp'"
      using accepted_inv [OF acc] by simp
    from run_inv [OF this ord]
    have "map_of (seenNonces (runReplay ?rp' ops)) n \<noteq> None \<or>
          ts < int t1 - maxAgeMs (runReplay ?rp' ops)"
      using le by auto
    then show ?thesis by (auto simp: replay_check_true_iff)
  qed
qed

theorem replay_check_semantics_witness:
  "ReplayProtector_check new_ReplayProtector 400000 400000 ''n'' 100000 =
     (True, \<lparr>seenNonces = [(''n'', 100000)], maxAgeMs = 300000, maxClockSkewMs = 30000\<rparr>) \<and>
   fst (ReplayProtector_check
          \<lparr>seenNonces = [(''n'', 100000)], maxAgeMs = 300000, maxClockSkewMs = 30000\<rparr>
          400001 400001 ''n'' 400001) = False \<and>
   fst (ReplayProtector_check
          (runReplay \<lparr>seenNonces = [(''n'', 100000)], maxAgeMs = 300000, maxClockSkewMs = 30000\<rparr>
             [OpCleanup 400001, OpCheck 400002 400002 ''m'' 400002])
          400003 400003 ''n'' 100000) = False"
proof -
  let ?rp1 = "\<lparr>seenNonces = [(''n'', 100000)], maxAgeMs = 300000, maxClockSkewMs = 30000\<rparr>"
  let ?ops = "[OpCleanup 400001, OpCheck 400002 400002 ''m'' 400002]"
  have ev: "ReplayProtector_check new_ReplayProtector 400000 400000 ''n'' 100000 = (True, ?rp1)"
    by (simp add: ReplayProtector_check_def new_ReplayProtector_def Let_def)
  have h: "\<not> ((100000::int) < int 400000 - maxAgeMs new_ReplayProtector \<or>
       100000 > int 400000 + maxClockSkewMs new_ReplayProtector \<or>
       map_of (seenNonces new_ReplayProtector) ''n'' \<noteq> None)"
    by (simp add: new_ReplayProtector_def)
  have r: "map_of (seenNonces ?rp1) ''n'' = Some 100000"
    by simp
  have o: "clockOrdered 400000 ?ops" "lastClock 400000 ?ops \<le> 400003"
    by simp_all
  note sem = replay_check_semantics [of 100000 400000 new_ReplayProtector "''n''" 400000]
  have a: "fst (ReplayProtector_check ?rp1 400001 400001 ''n'' 400001) = False"
    using sem h ev r by (metis snd_conv)
  have b: "fst (ReplayProtector_check (runReplay ?rp1 ?ops) 400003 400003 ''n'' 100000) = False"
    using sem h ev o by (metis snd_conv)
  show ?thesis using ev a b by blast
qed

lemma fullTable_length: "length fullTable = 10000"
  by (simp add: fullTable_def)

lemma fullTable_absent: "map_of fullTable ''n'' = None"
proof -
  have "''n'' \<noteq> replicate (Suc i) CHR ''x''" for i
    by simp
  then show ?thesis
    by (auto simp: fullTable_def map_of_eq_None_iff image_iff)
qed

lemma fullTable_old: "filter (\<lambda>(nonce, ts). \<not> ts < 100001) fullTable = []"
  by (auto simp: fullTable_def filter_empty_conv)

text \<open>
  The claim C3 as first stated promises the refusal for any timestamp inside the window
  \<open>[t\<^sub>0 - maxAge, t\<^sub>0 + maxSkew]\<close> of the first acceptance. A frame with timestamp 100000
  is accepted at 400000; a cleanup at 400001 finds it older than five minutes and forgets
  its nonce; the same nonce with timestamp 400001, which lies in \<open>[100000, 430000]\<close>, is
  then accepted. The cleanup need not be called from outside: with 10000 nonces in the
  table, the cleanup inside the accepting call, reading the clock one millisecond
  later, forgets the nonce at once, and the same frame is accepted a second time.
\<close>

theorem replay_check_counterexample:
  "ReplayProtector_check new_ReplayProtector 400000 400000 ''n'' 100000 =
     (True, \<lparr>seenNonces = [(''n'', 100000)], maxAgeMs = 300000, maxClockSkewMs = 30000\<rparr>) \<and>
   ReplayProtector_cleanup
     \<lparr>seenNonces = [(''n'', 100000)], maxAgeMs = 300000, maxClockSkewMs = 30000\<rparr> 400001 =
     \<lparr>seenNonces = [], maxAgeMs = 300000, maxClockSkewMs = 30000\<rparr> \<and>
   (400000::int) - 300000 \<le> 400001 \<and> (400001::int) \<le> 400000 + 30000 \<and>
   fst (ReplayProtector_check
          \<lparr>seenNonces = [], maxAgeMs = 300000, maxClockSkewMs = 30000\<rparr>
          400001 400001 ''n'' 400001) = True \<and>
   ReplayProtector_check
     \<lparr>seenNonces = fullTable, maxAgeMs = 300000, maxClockSkewMs = 30000\<rparr>
     400000 400001 ''n'' 100000 =
     (True, \<lparr>seenNonces = [], maxAgeMs = 300000, maxClockSkewMs = 30000\<rparr>) \<and>
   fst (ReplayProtector_check
          \<lparr>seenNonces = [], maxAgeMs = 300000, maxClockSkewMs = 30000\<rparr>
          400000 400001 ''n'' 100000) = True"
proof -
  have a: "ReplayProtector_check new_ReplayProtector 400000 400000 ''n'' 100000 =
     (True, \<lparr>seenNonces = [(''n'', 100000)], maxAgeMs = 300000, maxClockSkewMs = 30000\<rparr>) \<and>
   ReplayProtector_cleanup
     \<lparr>seenNonces = [(''n'', 100000)], maxAgeMs = 300000, maxClockSkewMs = 30000\<rparr> 400001 =
     \<lparr>seenNonces = [], maxAgeMs = 300000, maxClockSkewMs = 30000\<rparr> \<and>
   (400000::int) - 300000 \<le> 400001 \<and> (400001::int) \<le> 400000 + 30000 \<and>
   fst (ReplayProtector_check
          \<lparr>seenNonces = [], maxAgeMs = 300000, maxClockSkewMs = 30000\<rparr>
          400001 400001 ''n'' 400001) = True"
    by (simp add: ReplayProtector_check_def ReplayProtector_cleanup_def new_ReplayProtector_def Let_def)
  have b: "ReplayProtector_check
     \<lparr>seenNonces = fullTable, maxAgeMs = 300000, maxClockSkewMs = 30000\<rparr>
     400000 400001 ''n'' 100000 =
     (True, \<lparr>seenNonces = [], maxAgeMs = 300000, maxClockSkewMs = 30000\<rparr>)"
    by (simp add: ReplayProtector_check_def ReplayProtector_cleanup_def Let_def fullTable_absent
        update_absent fullTable_length fullTable_old)
  have c: "fst (ReplayProtector_check
          \<lparr>seenNonces = [], maxAgeMs = 300000, maxClockSkewMs = 30000\<rparr>
          400000 400001 ''n'' 100000) = True"
    by (simp add: ReplayProtector_check_def Let_def)
  show ?thesis using a b c by blast
qed

section \<open>Authorization lookup\<close>

lemma inGrace_iff: "inGrace h now \<longleftrightarrow> (\<exists>u. validUntil h = Some u \<and> int now < u)"
  by (auto simp: inGrace_def split: option.splits)

lemma historyAuthorizes_iff:
  "historyAuthorizes hs now k \<longleftrightarrow> (\<exists>h \<in> set hs. publicKey_h h = k \<and> inGrace h now)"
  by (induction hs) auto

lemma historyScan_iff:
  "historyScan gs now k s \<longleftrightarrow>
     (\<exists>g \<in> set gs. \<not> isRevoked g \<and> (''*'' \<in> set (sessions_g g) \<or> s \<in> set (sessions_g g)) \<and>
        ''inject'' \<in> set (caps_g g) \<and>
        (\<exists>hs. keyHistory_g g = Some hs \<and> historyAuthorizes hs now k))"
  by (induction gs) (auto split: option.splits)

lemma find_Some_ex: "(\<exists>x. find P xs = Some x) \<longleftrightarrow> (\<exists>x \<in> set xs. P x)"
  by (induction xs) auto

lemma isAuthorized_ex:
  "isAuthorized gs now k s \<longleftrightarrow>
     (\<exists>g \<in> set gs. \<not> isRevoked g \<and> ''inject'' \<in> set (caps_g g) \<and>
        (''*'' \<in> set (sessions_g g) \<or> s \<in> set (sessions_g g)) \<and>
        (peerKey g = k \<or>
         (\<exists>hs. keyHistory_g g = Some hs \<and> (\<exists>h \<in> set hs. publicKey_h h = k \<and> inGrace h now))))"
proof (cases "find (\<lambda>g. \<not> isRevoked g \<and> peerKey g = k \<and>
                     (''*'' \<in> set (sessions_g g) \<or> s \<in> set (sessions_g g)) \<and>
                     ''inject'' \<in> set (caps_g g)) gs")
  case None
  then have no: "\<not> (\<exists>g \<in> set gs. \<not> isRevoked g \<and> peerKey g = k \<and>
                     (''*'' \<in> set (sessions_g g) \<or> s \<in> set (sessions_g g)) \<and>
                     ''inject'' \<in> set (caps_g g))"
    by (simp add: find_None_iff)
  have "isAuthorized gs now k s = historyScan gs now k s"
    using None by (simp add: isAuthorized_def)
  then show ?thesis
    using no unfolding historyScan_iff historyAuthorizes_iff by blast
next
  case (Some g)
  then have "\<exists>g \<in> set gs. \<not> isRevoked g \<and> peerKey g = k \<and>
                     (''*'' \<in> set (sessions_g g) \<or> s \<in> set (sessions_g g)) \<and>
                     ''inject'' \<in> set (caps_g g)"
    using find_Some_ex [of _ gs] by blast
  moreover have "isAuthorized gs now k s"
    using Some by (simp add: isAuthorized_def)
  ultimately show ?thesis by blast
qed

text \<open>
  Claim C2. \<^verbatim>\<open>isAuthorized(k, s)\<close> is true exactly when some grant that is not revoked has
  \<open>inject\<close> among its capabilities, has \<open>*\<close> or \<open>s\<close> among its sessions, and either has
  \<open>k\<close> as its current peer key or has a history entry for \<open>k\<close> with
  \<open>now < validUntil\<close>. In particular a store whose grants are all revoked authorizes
  nobody.
\<close>

theorem isAuthorized_iff:
  "(isAuthorized gs now k s \<longleftrightarrow>
     (\<exists>g \<in> set gs. revoked g \<noteq> Some True \<and> ''inject'' \<in> set (caps_g g) \<and>
        (''*'' \<in> set (sessions_g g) \<or> s \<in> set (sessions_g g)) \<and>
        (peerKey g = k \<or>
         (\<exists>hs. keyHistory_g g = Some hs \<and>
            (\<exists>h \<in> set hs. publicKey_h h = k \<and> (\<exists>u. validUntil h = Some u \<and> int now < u)))))) \<and>
   ((\<forall>g \<in> set gs. revoked g = Some True) \<longrightarrow> \<not> isAuthorized gs now k s)"
  unfolding isAuthorized_ex inGrace_iff isRevoked_def by blast

theorem isAuthorized_iff_witness:
  "isAuthorized
     [\<lparr>id_g = ''grant-1'', peerKey = ''B2'', peerEncryptPub = Some ''e'', sessions_g = [''dev''],
       caps_g = [''inject''], created = 1, revoked = None, peerName = None,
       keyHistory_g = Some [\<lparr>publicKey_h = ''B1'', encryptPub_h = ''e0'', validFrom = 1,
                             validUntil = Some 100, rotationReason = ''scheduled''\<rparr>]\<rparr>]
     50 ''B1'' ''dev'' \<and>
   \<not> isAuthorized
     [\<lparr>id_g = ''grant-1'', peerKey = ''B2'', peerEncryptPub = Some ''e'', sessions_g = [''dev''],
       caps_g = [''inject''], created = 1, revoked = Some True, peerName = None,
       keyHistory_g = None\<rparr>]
     50 ''B2'' ''dev''"
proof -
  let ?g = "\<lparr>id_g = ''grant-1'', peerKey = ''B2'', peerEncryptPub = Some ''e'', sessions_g = [''dev''],
       caps_g = [''inject''], created = 1, revoked = None, peerName = None,
       keyHistory_g = Some [\<lparr>publicKey_h = ''B1'', encryptPub_h = ''e0'', validFrom = 1,
                             validUntil = Some 100, rotationReason = ''scheduled''\<rparr>]\<rparr>"
  let ?r = "\<lparr>id_g = ''grant-1'', peerKey = ''B2'', peerEncryptPub = Some ''e'', sessions_g = [''dev''],
       caps_g = [''inject''], created = 1, revoked = Some True, peerName = None,
       keyHistory_g = None\<rparr>"
  have a: "isAuthorized [?g] 50 ''B1'' ''dev''"
    using isAuthorized_iff [of "[?g]" 50 "''B1''" "''dev''"] by simp
  have h: "\<forall>g \<in> set [?r]. revoked g = Some True"
    by simp
  have b: "\<not> isAuthorized [?r] 50 ''B2'' ''dev''"
    using isAuthorized_iff [of "[?r]" 50 "''B2''" "''dev''"] h by blast
  show ?thesis using a b by blast
qed

lemma historyHasKey_iff: "historyHasKey hs k \<longleftrightarrow> (\<exists>h \<in> set hs. publicKey_h h = k)"
  by (induction hs) auto

lemma grantByHistory_None:
  "grantByHistory gs k = None \<longleftrightarrow>
     \<not> (\<exists>g \<in> set gs. \<not> isRevoked g \<and> (\<exists>hs. keyHistory_g g = Some hs \<and> historyHasKey hs k))"
  by (induction gs) (auto split: option.splits)

lemma grantByHistory_Some:
  "grantByHistory gs k = Some g \<Longrightarrow>
     g \<in> set gs \<and> \<not> isRevoked g \<and> (\<exists>hs. keyHistory_g g = Some hs \<and> historyHasKey hs k)"
  by (induction gs) (auto split: option.splits if_splits)

lemma find_SomeD: "find P xs = Some x \<Longrightarrow> x \<in> set xs \<and> P x"
  by (induction xs) (auto split: if_splits)

lemma grantByHistory_find:
  "grantByHistory gs k =
     find (\<lambda>g. revoked g \<noteq> Some True \<and>
                (\<exists>hs. keyHistory_g g = Some hs \<and> (\<exists>h \<in> set hs. publicKey_h h = k))) gs"
  by (induction gs) (auto simp: historyHasKey_iff isRevoked_def split: option.splits)

lemma getGrantForPeer_find:
  "getGrantForPeer gs k =
     (case find (\<lambda>g. revoked g \<noteq> Some True \<and> peerKey g = k) gs of
        Some g \<Rightarrow> Some g
      | None \<Rightarrow>
          find (\<lambda>g. revoked g \<noteq> Some True \<and>
                     (\<exists>hs. keyHistory_g g = Some hs \<and> (\<exists>h \<in> set hs. publicKey_h h = k))) gs)"
  by (simp add: getGrantForPeer_def grantByHistory_find isRevoked_def split: option.splits)

text \<open>
  Claim C8, as amended. \<^verbatim>\<open>getGrantForPeer(k)\<close> searches the grants that are not revoked. It
  returns the first one, in the order of the store, whose current peer key is \<open>k\<close>;
  failing that, the first one with a history entry for \<open>k\<close>, whether or not that entry's
  grace period has run out; and nothing when no grant matches in either way. Whenever
  \<^verbatim>\<open>isAuthorized(k, s)\<close> holds, \<^verbatim>\<open>getGrantForPeer(k)\<close> returns a grant.
\<close>

theorem getGrantForPeer_search:
  "(getGrantForPeer gs k = None \<longleftrightarrow>
      \<not> (\<exists>g \<in> set gs. revoked g \<noteq> Some True \<and>
            (peerKey g = k \<or>
             (\<exists>hs. keyHistory_g g = Some hs \<and> (\<exists>h \<in> set hs. publicKey_h h = k))))) \<and>
   (\<forall>g. getGrantForPeer gs k = Some g \<longleftrightarrow>
      (\<exists>i < length gs. g = gs ! i \<and>
          revoked (gs ! i) \<noteq> Some True \<and> peerKey (gs ! i) = k \<and>
          (\<forall>j < i. \<not> (revoked (gs ! j) \<noteq> Some True \<and> peerKey (gs ! j) = k))) \<or>
      ((\<forall>j < length gs. \<not> (revoked (gs ! j) \<noteq> Some True \<and> peerKey (gs ! j) = k)) \<and>
       (\<exists>i < length gs. g = gs ! i \<and>
          revoked (gs ! i) \<noteq> Some True \<and>
          (\<exists>hs. keyHistory_g (gs ! i) = Some hs \<and> (\<exists>h \<in> set hs. publicKey_h h = k)) \<and>
          (\<forall>j < i. \<not> (revoked (gs ! j) \<noteq> Some True \<and>
             (\<exists>hs. keyHistory_g (gs ! j) = Some hs \<and> (\<exists>h \<in> set hs. publicKey_h h = k))))))) \<and>
   (isAuthorized gs now k s \<longrightarrow> getGrantForPeer gs k \<noteq> None)"
proof -
  let ?cur = "\<lambda>g. revoked g \<noteq> Some True \<and> peerKey g = k"
  let ?hist = "\<lambda>g. revoked g \<noteq> Some True \<and>
                  (\<exists>hs. keyHistory_g g = Some hs \<and> (\<exists>h \<in> set hs. publicKey_h h = k))"
  have none: "getGrantForPeer gs k = None \<longleftrightarrow>
      \<not> (\<exists>g \<in> set gs. revoked g \<noteq> Some True \<and>
            (peerKey g = k \<or>
             (\<exists>hs. keyHistory_g g = Some hs \<and> (\<exists>h \<in> set hs. publicKey_h h = k))))"
  proof (cases "find ?cur gs")
    case None
    then have no: "\<not> (\<exists>g \<in> set gs. ?cur g)"
      by (simp add: find_None_iff)
    have "getGrantForPeer gs k = find ?hist gs"
      using None by (simp add: getGrantForPeer_find)
    then have "getGrantForPeer gs k = None \<longleftrightarrow> \<not> (\<exists>g \<in> set gs. ?hist g)"
      by (auto simp: find_None_iff)
    then show ?thesis using no by blast
  next
    case (Some g)
    then have "g \<in> set gs \<and> ?cur g"
      using find_SomeD [of ?cur gs g] by blast
    moreover have "getGrantForPeer gs k = Some g"
      using Some by (simp add: getGrantForPeer_find)
    ultimately show ?thesis by auto
  qed
  have auth: "isAuthorized gs now k s \<longrightarrow> getGrantForPeer gs k \<noteq> None"
    unfolding none isAuthorized_ex isRevoked_def by blast
  have first: "getGrantForPeer gs k = Some g \<longleftrightarrow>
      (\<exists>i < length gs. g = gs ! i \<and> ?cur (gs ! i) \<and> (\<forall>j < i. \<not> ?cur (gs ! j))) \<or>
      ((\<forall>j < length gs. \<not> ?cur (gs ! j)) \<and>
       (\<exists>i < length gs. g = gs ! i \<and> ?hist (gs ! i) \<and> (\<forall>j < i. \<not> ?hist (gs ! j))))" for g
  proof (cases "find ?cur gs")
    case None
    then have no: "\<forall>j < length gs. \<not> ?cur (gs ! j)"
      by (simp add: find_None_iff)
    have "getGrantForPeer gs k = find ?hist gs"
      using None by (simp add: getGrantForPeer_find)
    then have "getGrantForPeer gs k = Some g \<longleftrightarrow>
        (\<exists>i < length gs. ?hist (gs ! i) \<and> g = gs ! i \<and> (\<forall>j < i. \<not> ?hist (gs ! j)))"
      by (simp only: find_Some_iff)
    then show ?thesis using no by blast
  next
    case (Some g')
    then have f: "\<exists>i < length gs. ?cur (gs ! i) \<and> g' = gs ! i \<and> (\<forall>j < i. \<not> ?cur (gs ! j))"
      by (simp only: find_Some_iff)
    have res: "getGrantForPeer gs k = Some g'"
      using Some by (simp add: getGrantForPeer_find)
    have uniq: "g = g'"
      if "\<exists>i < length gs. g = gs ! i \<and> ?cur (gs ! i) \<and> (\<forall>j < i. \<not> ?cur (gs ! j))"
    proof -
      from that obtain i where i: "i < length gs" "g = gs ! i" "?cur (gs ! i)"
        "\<forall>j < i. \<not> ?cur (gs ! j)" by blast
      from f obtain i' where i': "i' < length gs" "g' = gs ! i'" "?cur (gs ! i')"
        "\<forall>j < i'. \<not> ?cur (gs ! j)" by blast
      have "\<not> i < i'" using i(3) i'(4) by blast
      moreover have "\<not> i' < i" using i'(3) i(4) by blast
      ultimately have "i = i'" by simp
      then show ?thesis using i(2) i'(2) by simp
    qed
    show ?thesis
    proof
      assume "getGrantForPeer gs k = Some g"
      then have "g = g'" using res by simp
      then show "(\<exists>i < length gs. g = gs ! i \<and> ?cur (gs ! i) \<and> (\<forall>j < i. \<not> ?cur (gs ! j))) \<or>
        ((\<forall>j < length gs. \<not> ?cur (gs ! j)) \<and>
         (\<exists>i < length gs. g = gs ! i \<and> ?hist (gs ! i) \<and> (\<forall>j < i. \<not> ?hist (gs ! j))))"
        using f by blast
    next
      assume "(\<exists>i < length gs. g = gs ! i \<and> ?cur (gs ! i) \<and> (\<forall>j < i. \<not> ?cur (gs ! j))) \<or>
        ((\<forall>j < length gs. \<not> ?cur (gs ! j)) \<and>
         (\<exists>i < length gs. g = gs ! i \<and> ?hist (gs ! i) \<and> (\<forall>j < i. \<not> ?hist (gs ! j))))"
      then have "\<exists>i < length gs. g = gs ! i \<and> ?cur (gs ! i) \<and> (\<forall>j < i. \<not> ?cur (gs ! j))"
        using f by blast
      from uniq [OF this] res show "getGrantForPeer gs k = Some g" by simp
    qed
  qed
  have every: "\<forall>g. getGrantForPeer gs k = Some g \<longleftrightarrow>
      (\<exists>i < length gs. g = gs ! i \<and> ?cur (gs ! i) \<and> (\<forall>j < i. \<not> ?cur (gs ! j))) \<or>
      ((\<forall>j < length gs. \<not> ?cur (gs ! j)) \<and>
       (\<exists>i < length gs. g = gs ! i \<and> ?hist (gs ! i) \<and> (\<forall>j < i. \<not> ?hist (gs ! j))))"
    using first by (rule allI)
  note every' = every [unfolded conj_assoc]
  show ?thesis
    by (rule conjI [OF none conjI [OF every' auth]])
qed

theorem getGrantForPeer_search_witness:
  "getGrantForPeer
     [\<lparr>id_g = ''grant-1'', peerKey = ''B2'', peerEncryptPub = Some ''e'', sessions_g = [''dev''],
       caps_g = [''inject''], created = 1, revoked = None, peerName = None,
       keyHistory_g = Some [\<lparr>publicKey_h = ''B1'', encryptPub_h = ''e0'', validFrom = 1,
                             validUntil = Some 100, rotationReason = ''scheduled''\<rparr>]\<rparr>] ''B1''
     \<noteq> None \<and>
   getGrantForPeer
     [\<lparr>id_g = ''grant-1'', peerKey = ''B2'', peerEncryptPub = Some ''e'', sessions_g = [''dev''],
       caps_g = [''inject''], created = 1, revoked = None, peerName = None,
       keyHistory_g = Some [\<lparr>publicKey_h = ''B1'', encryptPub_h = ''e0'', validFrom = 1,
                             validUntil = Some 100, rotationReason = ''scheduled''\<rparr>]\<rparr>] ''C''
     = None \<and>
   getGrantForPeer
     [\<lparr>id_g = ''grant-1'', peerKey = ''B'', peerEncryptPub = Some ''e1'', sessions_g = [''dev''],
       caps_g = [''inject''], created = 1, revoked = None, peerName = None, keyHistory_g = None\<rparr>,
      \<lparr>id_g = ''grant-2'', peerKey = ''B'', peerEncryptPub = Some ''e2'', sessions_g = [''ops''],
       caps_g = [''inject''], created = 2, revoked = None, peerName = None, keyHistory_g = None\<rparr>]
     ''B'' =
   Some \<lparr>id_g = ''grant-1'', peerKey = ''B'', peerEncryptPub = Some ''e1'', sessions_g = [''dev''],
       caps_g = [''inject''], created = 1, revoked = None, peerName = None, keyHistory_g = None\<rparr>"
proof -
  let ?g = "\<lparr>id_g = ''grant-1'', peerKey = ''B2'', peerEncryptPub = Some ''e'', sessions_g = [''dev''],
       caps_g = [''inject''], created = 1, revoked = None, peerName = None,
       keyHistory_g = Some [\<lparr>publicKey_h = ''B1'', encryptPub_h = ''e0'', validFrom = 1,
                             validUntil = Some 100, rotationReason = ''scheduled''\<rparr>]\<rparr>"
  let ?g1 = "\<lparr>id_g = ''grant-1'', peerKey = ''B'', peerEncryptPub = Some ''e1'', sessions_g = [''dev''],
       caps_g = [''inject''], created = 1, revoked = None, peerName = None, keyHistory_g = None\<rparr>"
  let ?g2 = "\<lparr>id_g = ''grant-2'', peerKey = ''B'', peerEncryptPub = Some ''e2'', sessions_g = [''ops''],
       caps_g = [''inject''], created = 2, revoked = None, peerName = None, keyHistory_g = None\<rparr>"
  have auth: "isAuthorized [?g] 50 ''B1'' ''dev''"
    by (simp add: isAuthorized_def isRevoked_def inGrace_def)
  have a: "getGrantForPeer [?g] ''B1'' \<noteq> None"
    using getGrantForPeer_search [of "[?g]" "''B1''" 50 "''dev''"] auth by blast
  have b: "getGrantForPeer [?g] ''C'' = None"
    using getGrantForPeer_search [of "[?g]" "''C''" 50 "''dev''"] by simp
  have h: "\<exists>i < length [?g1, ?g2]. ?g1 = [?g1, ?g2] ! i \<and>
          revoked ([?g1, ?g2] ! i) \<noteq> Some True \<and> peerKey ([?g1, ?g2] ! i) = ''B'' \<and>
          (\<forall>j < i. \<not> (revoked ([?g1, ?g2] ! j) \<noteq> Some True \<and> peerKey ([?g1, ?g2] ! j) = ''B''))"
    by (rule exI [of _ 0]) simp
  have c: "getGrantForPeer [?g1, ?g2] ''B'' = Some ?g1"
    by (rule getGrantForPeer_search [of "[?g1, ?g2]" "''B''" 50 "''dev''",
        THEN conjunct2, THEN conjunct1, THEN spec, THEN iffD2, OF disjI1, OF h])
  show ?thesis using a b c by blast
qed

text \<open>
  The claim C8 as first stated has the grace period in the search. At clock reading 200
  the history entry for \<open>B1\<close> expired at 100 and \<^verbatim>\<open>isAuthorized\<close> refuses \<open>B1\<close>, yet
  \<^verbatim>\<open>getGrantForPeer\<close>, which reads no clock, returns the grant.
\<close>

theorem getGrantForPeer_counterexample:
  "\<not> isAuthorized
     [\<lparr>id_g = ''grant-1'', peerKey = ''B2'', peerEncryptPub = Some ''e'', sessions_g = [''dev''],
       caps_g = [''inject''], created = 1, revoked = None, peerName = None,
       keyHistory_g = Some [\<lparr>publicKey_h = ''B1'', encryptPub_h = ''e0'', validFrom = 1,
                             validUntil = Some 100, rotationReason = ''scheduled''\<rparr>]\<rparr>]
     200 ''B1'' ''dev'' \<and>
   \<not> (int 200 < 100) \<and>
   getGrantForPeer
     [\<lparr>id_g = ''grant-1'', peerKey = ''B2'', peerEncryptPub = Some ''e'', sessions_g = [''dev''],
       caps_g = [''inject''], created = 1, revoked = None, peerName = None,
       keyHistory_g = Some [\<lparr>publicKey_h = ''B1'', encryptPub_h = ''e0'', validFrom = 1,
                             validUntil = Some 100, rotationReason = ''scheduled''\<rparr>]\<rparr>] ''B1''
   = Some \<lparr>id_g = ''grant-1'', peerKey = ''B2'', peerEncryptPub = Some ''e'', sessions_g = [''dev''],
       caps_g = [''inject''], created = 1, revoked = None, peerName = None,
       keyHistory_g = Some [\<lparr>publicKey_h = ''B1'', encryptPub_h = ''e0'', validFrom = 1,
                             validUntil = Some 100, rotationReason = ''scheduled''\<rparr>]\<rparr>"
  by (simp add: isAuthorized_def getGrantForPeer_def isRevoked_def inGrace_def)

section \<open>Key rotation\<close>

lemma findIndex_None_iff: "findIndex P xs = None \<longleftrightarrow> (\<forall>x \<in> set xs. \<not> P x)"
  by (induction xs) auto


lemma findIndex_replace_unique:
  "findIndex P xs = Some i \<Longrightarrow> length (filter P xs) \<le> 1 \<Longrightarrow> \<not> P y \<Longrightarrow>
   findIndex P (xs[i := y]) = None"
proof (induction xs arbitrary: i)
  case Nil
  then show ?case by simp
next
  case (Cons x xs)
  show ?case
  proof (cases "P x")
    case True
    then have i: "i = 0" and none: "filter P xs = []"
      using Cons.prems by auto
    from none have "\<forall>x \<in> set xs. \<not> P x"
      by (simp add: filter_empty_conv)
    then show ?thesis
      using i Cons.prems(3) by (simp add: findIndex_None_iff)
  next
    case False
    then obtain j where j: "findIndex P xs = Some j" "i = Suc j"
      using Cons.prems by auto
    have "length (filter P xs) \<le> 1" using Cons.prems(2) False by simp
    from Cons.IH [OF j(1) this Cons.prems(3)] show ?thesis
      using False j(2) by simp
  qed
qed

lemma isRevoked_rotateGrant [simp]: "isRevoked (rotateGrant add g r) = isRevoked g"
  by (simp add: rotateGrant_def isRevoked_def Let_def)

lemma peerKey_rotateGrant [simp]: "peerKey (rotateGrant add g r) = newSignPub r"
  by (simp add: rotateGrant_def Let_def)

lemma publicKey_rotatePeer [simp]: "publicKey_p (rotatePeer sk add p r) = newSignPub r"
  by (simp add: rotatePeer_def Let_def)

lemma rotated_grants_settle:
  assumes "newSignPub r \<noteq> oldSignPub r"
      and "length (filter (\<lambda>g. peerKey g = oldSignPub r \<and> \<not> isRevoked g) gs) \<le> 1"
  shows "findIndex (\<lambda>g. peerKey g = oldSignPub r \<and> \<not> isRevoked g)
           (case findIndex (\<lambda>g. peerKey g = oldSignPub r \<and> \<not> isRevoked g) gs of
              None \<Rightarrow> gs | Some i \<Rightarrow> gs[i := rotateGrant add (gs ! i) r]) = None"
proof (cases "findIndex (\<lambda>g. peerKey g = oldSignPub r \<and> \<not> isRevoked g) gs")
  case None
  then show ?thesis by simp
next
  case (Some i)
  have "\<not> (peerKey (rotateGrant add (gs ! i) r) = oldSignPub r \<and> \<not> isRevoked (rotateGrant add (gs ! i) r))"
    using assms(1) by simp
  from findIndex_replace_unique [OF Some assms(2) this] Some show ?thesis by simp
qed

lemma rotated_peers_settle:
  assumes "newSignPub r \<noteq> oldSignPub r"
      and "length (filter (\<lambda>p. publicKey_p p = oldSignPub r) ps) \<le> 1"
  shows "findIndex (\<lambda>p. publicKey_p p = oldSignPub r)
           (case findIndex (\<lambda>p. publicKey_p p = oldSignPub r) ps of
              None \<Rightarrow> ps | Some i \<Rightarrow> ps[i := rotatePeer sk add (ps ! i) r]) = None"
proof (cases "findIndex (\<lambda>p. publicKey_p p = oldSignPub r) ps")
  case None
  then show ?thesis by simp
next
  case (Some i)
  have "\<not> (publicKey_p (rotatePeer sk add (ps ! i) r) = oldSignPub r)"
    using assms(1) by simp
  from findIndex_replace_unique [OF Some assms(2) this] Some show ?thesis by simp
qed

text \<open>
  Claim C6, as amended. For every key rotation whose new signing key differs from the old
  one, and every trust store in which at most one grant that is not revoked has the old key
  as its peer key and at most one peer has it as its public key, processing the rotation
  twice in succession leaves the same grants and peers as processing it once.
\<close>

theorem rotation_twice_is_once:
  assumes "newSignPub r \<noteq> oldSignPub r"
      and "length (filter (\<lambda>g. peerKey g = oldSignPub r \<and> \<not> isRevoked g) (grants st)) \<le> 1"
      and "length (filter (\<lambda>p. publicKey_p p = oldSignPub r) (peers st)) \<le> 1"
  shows "snd (processPeerKeyRotation vfy sk add (snd (processPeerKeyRotation vfy sk add st r)) r) =
         snd (processPeerKeyRotation vfy sk add st r)"
proof (cases "vfy r")
  case False
  then show ?thesis by (simp add: processPeerKeyRotation_def)
next
  case True
  show ?thesis
    using True rotated_grants_settle [OF assms(1,2), of add] rotated_peers_settle [OF assms(1,3), of sk add]
    by (simp add: processPeerKeyRotation_def Let_def)
qed

theorem rotation_twice_is_once_witness:
  "snd (processPeerKeyRotation signatureVerifies keyPrefix (+)
      (snd (processPeerKeyRotation signatureVerifies keyPrefix (+)
         \<lparr>grants = [\<lparr>id_g = ''grant-1'', peerKey = ''A'', peerEncryptPub = Some ''ea'',
                     sessions_g = [''dev''], caps_g = [''inject''], created = 1, revoked = None,
                     peerName = None, keyHistory_g = None\<rparr>],
          peers = []\<rparr>
         \<lparr>v_k = 1, oldSignPub = ''A'', newSignPub = ''A2'', newEncryptPub = ''ea2'',
          reason_k = ''scheduled'', effectiveAt = 1000, gracePeriodMs = 604800000, sig_k = ''s''\<rparr>))
      \<lparr>v_k = 1, oldSignPub = ''A'', newSignPub = ''A2'', newEncryptPub = ''ea2'',
       reason_k = ''scheduled'', effectiveAt = 1000, gracePeriodMs = 604800000, sig_k = ''s''\<rparr>) =
   \<lparr>grants = [\<lparr>id_g = ''grant-1'', peerKey = ''A2'', peerEncryptPub = Some ''ea2'',
               sessions_g = [''dev''], caps_g = [''inject''], created = 1, revoked = None,
               peerName = None,
               keyHistory_g = Some [\<lparr>publicKey_h = ''A'', encryptPub_h = ''ea'', validFrom = 1,
                                     validUntil = Some 604801000, rotationReason = ''scheduled''\<rparr>]\<rparr>],
    peers = []\<rparr>"
proof -
  let ?st = "\<lparr>grants = [\<lparr>id_g = ''grant-1'', peerKey = ''A'', peerEncryptPub = Some ''ea'',
                     sessions_g = [''dev''], caps_g = [''inject''], created = 1, revoked = None,
                     peerName = None, keyHistory_g = None\<rparr>],
          peers = []\<rparr>"
  let ?r = "\<lparr>v_k = 1, oldSignPub = ''A'', newSignPub = ''A2'', newEncryptPub = ''ea2'',
          reason_k = ''scheduled'', effectiveAt = 1000, gracePeriodMs = 604800000, sig_k = ''s''\<rparr>"
  have h1: "newSignPub ?r \<noteq> oldSignPub ?r" by simp
  have h2: "length (filter (\<lambda>g. peerKey g = oldSignPub ?r \<and> \<not> isRevoked g) (grants ?st)) \<le> 1"
    by simp
  have h3: "length (filter (\<lambda>p. publicKey_p p = oldSignPub ?r) (peers ?st)) \<le> 1"
    by simp
  have once: "snd (processPeerKeyRotation signatureVerifies keyPrefix (+) ?st ?r) =
     \<lparr>grants = [\<lparr>id_g = ''grant-1'', peerKey = ''A2'', peerEncryptPub = Some ''ea2'',
               sessions_g = [''dev''], caps_g = [''inject''], created = 1, revoked = None,
               peerName = None,
               keyHistory_g = Some [\<lparr>publicKey_h = ''A'', encryptPub_h = ''ea'', validFrom = 1,
                                     validUntil = Some 604801000, rotationReason = ''scheduled''\<rparr>]\<rparr>],
      peers = []\<rparr>"
    by (simp add: processPeerKeyRotation_def signatureVerifies_def isRevoked_def rotateGrant_def
        orEmpty_def Let_def)
  show ?thesis
    using rotation_twice_is_once [OF h1 h2 h3, of signatureVerifies keyPrefix "(+)"] once by simp
qed

text \<open>
  The claim C6 as first stated covers every rotation and every store. A rotation that names
  the old key as the new one is matched again by the second call, which appends a second
  history entry. And when two grants hold the old key (the first call of an earlier
  rotation to a key that already had a grant leaves such a store), the first call rotates
  one and the second call the other.
\<close>

theorem rotation_twice_counterexample:
  "keyHistory_g (hd (grants (snd (processPeerKeyRotation signatureVerifies keyPrefix (+)
      \<lparr>grants = [\<lparr>id_g = ''grant-1'', peerKey = ''A'', peerEncryptPub = Some ''ea'',
                  sessions_g = [''dev''], caps_g = [''inject''], created = 1, revoked = None,
                  peerName = None, keyHistory_g = None\<rparr>],
       peers = []\<rparr>
      \<lparr>v_k = 1, oldSignPub = ''A'', newSignPub = ''A'', newEncryptPub = ''ea'',
       reason_k = ''scheduled'', effectiveAt = 1000, gracePeriodMs = 0, sig_k = ''s''\<rparr>)))) =
     Some [\<lparr>publicKey_h = ''A'', encryptPub_h = ''ea'', validFrom = 1,
            validUntil = Some 1000, rotationReason = ''scheduled''\<rparr>] \<and>
   keyHistory_g (hd (grants (snd (processPeerKeyRotation signatureVerifies keyPrefix (+)
     (snd (processPeerKeyRotation signatureVerifies keyPrefix (+)
      \<lparr>grants = [\<lparr>id_g = ''grant-1'', peerKey = ''A'', peerEncryptPub = Some ''ea'',
                  sessions_g = [''dev''], caps_g = [''inject''], created = 1, revoked = None,
                  peerName = None, keyHistory_g = None\<rparr>],
       peers = []\<rparr>
      \<lparr>v_k = 1, oldSignPub = ''A'', newSignPub = ''A'', newEncryptPub = ''ea'',
       reason_k = ''scheduled'', effectiveAt = 1000, gracePeriodMs = 0, sig_k = ''s''\<rparr>))
      \<lparr>v_k = 1, oldSignPub = ''A'', newSignPub = ''A'', newEncryptPub = ''ea'',
       reason_k = ''scheduled'', effectiveAt = 1000, gracePeriodMs = 0, sig_k = ''s''\<rparr>)))) =
     Some [\<lparr>publicKey_h = ''A'', encryptPub_h = ''ea'', validFrom = 1,
            validUntil = Some 1000, rotationReason = ''scheduled''\<rparr>,
           \<lparr>publicKey_h = ''A'', encryptPub_h = ''ea'', validFrom = 1,
            validUntil = Some 1000, rotationReason = ''scheduled''\<rparr>] \<and>
   map peerKey (grants (snd (processPeerKeyRotation signatureVerifies keyPrefix (+)
      \<lparr>grants = [\<lparr>id_g = ''grant-1'', peerKey = ''B'', peerEncryptPub = None,
                  sessions_g = [''dev''], caps_g = [''inject''], created = 1, revoked = None,
                  peerName = None, keyHistory_g = None\<rparr>,
                 \<lparr>id_g = ''grant-2'', peerKey = ''B'', peerEncryptPub = None,
                  sessions_g = [''ops''], caps_g = [''inject''], created = 2, revoked = None,
                  peerName = None, keyHistory_g = None\<rparr>],
       peers = []\<rparr>
      \<lparr>v_k = 1, oldSignPub = ''B'', newSignPub = ''C'', newEncryptPub = ''ec'',
       reason_k = ''scheduled'', effectiveAt = 1000, gracePeriodMs = 0, sig_k = ''s''\<rparr>))) =
     [''C'', ''B''] \<and>
   map peerKey (grants (snd (processPeerKeyRotation signatureVerifies keyPrefix (+)
     (snd (processPeerKeyRotation signatureVerifies keyPrefix (+)
      \<lparr>grants = [\<lparr>id_g = ''grant-1'', peerKey = ''B'', peerEncryptPub = None,
                  sessions_g = [''dev''], caps_g = [''inject''], created = 1, revoked = None,
                  peerName = None, keyHistory_g = None\<rparr>,
                 \<lparr>id_g = ''grant-2'', peerKey = ''B'', peerEncryptPub = None,
                  sessions_g = [''ops''], caps_g = [''inject''], created = 2, revoked = None,
                  peerName = None, keyHistory_g = None\<rparr>],
       peers = []\<rparr>
      \<lparr>v_k = 1, oldSignPub = ''B'', newSignPub = ''C'', newEncryptPub = ''ec'',
       reason_k = ''scheduled'', effectiveAt = 1000, gracePeriodMs = 0, sig_k = ''s''\<rparr>))
      \<lparr>v_k = 1, oldSignPub = ''B'', newSignPub = ''C'', newEncryptPub = ''ec'',
       reason_k = ''scheduled'', effectiveAt = 1000, gracePeriodMs = 0, sig_k = ''s''\<rparr>))) =
     [''C'', ''C'']"
  by (simp add: processPeerKeyRotation_def signatureVerifies_def isRevoked_def rotateGrant_def
      orEmpty_def Let_def)

section \<open>The responder's gates\<close>

lemma onData_parsed:
  assumes "newline \<in> set (buffer c @ data)"
      and "JSON_parse env (takeWhile (\<lambda>ch. ch \<noteq> newline) (buffer c @ data)) = Parsed msg"
  shows "onData env me clk (l, c) data =
         (case handleMessage env me clk
            (l, c\<lparr>buffer := drop (length (takeWhile (\<lambda>ch. ch \<noteq> newline) (buffer c @ data)) + 1)
                               (buffer c @ data)\<rparr>) msg of
            (frames, l', c') \<Rightarrow> \<lparr>thrown = None, written = frames, listener = l', connection = c'\<rparr>)"
  using assms by (simp add: onData_def Let_def del: set_append drop_append)

lemma onData_unparsed:
  assumes "newline \<in> set (buffer c @ data)"
      and "JSON_parse env (takeWhile (\<lambda>ch. ch \<noteq> newline) (buffer c @ data)) = SyntaxError"
  shows "onData env me clk (l, c) data =
         \<lparr>thrown = None, written = [], listener = l,
          connection = c\<lparr>buffer := drop (length (takeWhile (\<lambda>ch. ch \<noteq> newline) (buffer c @ data)) + 1)
                                       (buffer c @ data)\<rparr>\<rparr>"
  using assms by (simp add: onData_def Let_def del: set_append drop_append)

text \<open>
  A line that parses to \<^verbatim>\<open>null\<close> is neither dropped silently nor charged: the listener
  throws.
\<close>

lemma onData_null_throws:
  assumes "newline \<in> set (buffer c @ data)"
      and "JSON_parse env (takeWhile (\<lambda>ch. ch \<noteq> newline) (buffer c @ data)) = JsonNull"
  shows "onData env me clk (l, c) data =
         \<lparr>thrown = Some TypeError, written = [], listener = l,
          connection = c\<lparr>buffer := drop (length (takeWhile (\<lambda>ch. ch \<noteq> newline) (buffer c @ data)) + 1)
                                       (buffer c @ data)\<rparr>\<rparr>"
  using assms by (simp add: onData_def Let_def del: set_append drop_append)

lemma replay_refused_unchanged:
  "\<not> fst (ReplayProtector_check rp now now' n ts) \<Longrightarrow>
   snd (ReplayProtector_check rp now now' n ts) = rp"
  by (auto simp: ReplayProtector_check_def Let_def split: if_splits)

lemma handleMessage_gated:
  assumes "type_m msg \<noteq> ''hello''" "type_m msg \<noteq> ''hello-ack''"
      and "\<not> (type_m msg = ''key-rotation'' \<and> keyRotation_m msg \<noteq> None)"
  shows "handleMessage env me clk (l, c) msg =
     (if \<not> verifySignature env msg (from_m msg)
        then ([], l\<lparr>rateLimiter :=
                     snd (RateLimiter_check (rateLimiter l) (atRateLimit clk) (from_m msg)
                            invalidMessages)\<rparr>, c)
      else if \<not> fst (ReplayProtector_check (replayProtector l) (atReplay clk) (atCleanup clk)
                       (nonce_m msg) (ts_m msg))
        then ([], l\<lparr>rateLimiter :=
                     snd (RateLimiter_check (rateLimiter l) (atRateLimit clk) (from_m msg)
                            invalidMessages)\<rparr>, c)
      else dispatch env me clk
             (l\<lparr>replayProtector :=
                  snd (ReplayProtector_check (replayProtector l) (atReplay clk) (atCleanup clk)
                         (nonce_m msg) (ts_m msg))\<rparr>, c) msg)"
proof -
  have kr: "(if type_m msg = ''key-rotation'' then keyRotation_m msg else None) = None"
    using assms(3) by auto
  show ?thesis
    using assms(1,2)
      replay_refused_unchanged [of "replayProtector l" "atReplay clk" "atCleanup clk"
        "nonce_m msg" "ts_m msg"]
    by (simp add: handleMessage_def kr Let_def case_prod_beta)
qed

text \<open>
  Claim C7, as amended. A line on which \<^verbatim>\<open>JSON.parse\<close> throws is dropped silently and
  nothing is charged: no frame is written, nothing is thrown, and the rate limiter, the
  replay protector and the trust store are as before. A frame with well-typed fields,
  other than \<^verbatim>\<open>hello\<close>, \<^verbatim>\<open>hello-ack\<close> and a \<^verbatim>\<open>key-rotation\<close> carrying its record, whose
  signature does not verify or whose nonce and timestamp the replay protector refuses, is
  charged to the \<^verbatim>\<open>invalidMessages\<close> class of its sender and dropped silently as well.
\<close>

theorem invalid_frames_dropped:
  assumes "newline \<in> set (buffer c @ data)"
  shows
   "(JSON_parse env (takeWhile (\<lambda>ch. ch \<noteq> newline) (buffer c @ data)) = SyntaxError \<longrightarrow>
       thrown (onData env me clk (l, c) data) = None \<and>
       written (onData env me clk (l, c) data) = [] \<and>
       listener (onData env me clk (l, c) data) = l) \<and>
    (\<forall>msg. JSON_parse env (takeWhile (\<lambda>ch. ch \<noteq> newline) (buffer c @ data)) = Parsed msg \<and>
        type_m msg \<noteq> ''hello'' \<and> type_m msg \<noteq> ''hello-ack'' \<and>
        \<not> (type_m msg = ''key-rotation'' \<and> keyRotation_m msg \<noteq> None) \<and>
        (\<not> verifySignature env msg (from_m msg) \<or>
         \<not> fst (ReplayProtector_check (replayProtector l) (atReplay clk) (atCleanup clk)
                  (nonce_m msg) (ts_m msg))) \<longrightarrow>
       thrown (onData env me clk (l, c) data) = None \<and>
       written (onData env me clk (l, c) data) = [] \<and>
       listener (onData env me clk (l, c) data) =
         l\<lparr>rateLimiter := snd (RateLimiter_check (rateLimiter l) (atRateLimit clk) (from_m msg)
                                  invalidMessages)\<rparr>)"
proof (intro conjI impI allI)
  assume "JSON_parse env (takeWhile (\<lambda>ch. ch \<noteq> newline) (buffer c @ data)) = SyntaxError"
  from onData_unparsed [OF assms this]
  show "thrown (onData env me clk (l, c) data) = None"
    "written (onData env me clk (l, c) data) = []" "listener (onData env me clk (l, c) data) = l"
    by simp_all
next
  fix msg
  assume a: "JSON_parse env (takeWhile (\<lambda>ch. ch \<noteq> newline) (buffer c @ data)) = Parsed msg \<and>
        type_m msg \<noteq> ''hello'' \<and> type_m msg \<noteq> ''hello-ack'' \<and>
        \<not> (type_m msg = ''key-rotation'' \<and> keyRotation_m msg \<noteq> None) \<and>
        (\<not> verifySignature env msg (from_m msg) \<or>
         \<not> fst (ReplayProtector_check (replayProtector l) (atReplay clk) (atCleanup clk)
                  (nonce_m msg) (ts_m msg)))"
  then have p: "JSON_parse env (takeWhile (\<lambda>ch. ch \<noteq> newline) (buffer c @ data)) = Parsed msg"
    and t: "type_m msg \<noteq> ''hello''" "type_m msg \<noteq> ''hello-ack''"
           "\<not> (type_m msg = ''key-rotation'' \<and> keyRotation_m msg \<noteq> None)"
    and bad: "\<not> verifySignature env msg (from_m msg) \<or>
         \<not> fst (ReplayProtector_check (replayProtector l) (atReplay clk) (atCleanup clk)
                  (nonce_m msg) (ts_m msg))"
    by blast+
  have "onData env me clk (l, c) data =
      \<lparr>thrown = None, written = [],
       listener = l\<lparr>rateLimiter := snd (RateLimiter_check (rateLimiter l) (atRateLimit clk)
                                          (from_m msg) invalidMessages)\<rparr>,
       connection = c\<lparr>buffer := drop (length (takeWhile (\<lambda>ch. ch \<noteq> newline) (buffer c @ data)) + 1)
                              (buffer c @ data)\<rparr>\<rparr>"
    unfolding onData_parsed [OF assms p] handleMessage_gated [OF t] using bad by auto
  then show "thrown (onData env me clk (l, c) data) = None"
    "written (onData env me clk (l, c) data) = []"
    "listener (onData env me clk (l, c) data) =
         l\<lparr>rateLimiter := snd (RateLimiter_check (rateLimiter l) (atRateLimit clk) (from_m msg)
                                  invalidMessages)\<rparr>"
    by simp_all
qed

theorem invalid_frames_dropped_witness:
  "written (onData (deafEnv claimFromB (tokenFor ''me'' ''A'')) ''me'' (steady 1000)
          (freshListener, newConnection) (''junk'' @ [newline])) = [] \<and>
   listener (onData (deafEnv claimFromB (tokenFor ''me'' ''A'')) ''me'' (steady 1000)
          (freshListener, newConnection) (''junk'' @ [newline])) = freshListener \<and>
   written (onData (forgedEnv claimFromB (tokenFor ''me'' ''A'')) ''me'' (steady 1000)
          (freshListener, newConnection) (''frame'' @ [newline])) = [] \<and>
   listener (onData (forgedEnv claimFromB (tokenFor ''me'' ''A'')) ''me'' (steady 1000)
          (freshListener, newConnection) (''frame'' @ [newline])) =
     freshListener\<lparr>rateLimiter :=
       snd (RateLimiter_check (rateLimiter freshListener) 1000 ''B'' invalidMessages)\<rparr>"
proof -
  let ?d = "deafEnv claimFromB (tokenFor ''me'' ''A'')"
  let ?f = "forgedEnv claimFromB (tokenFor ''me'' ''A'')"
  have n1: "newline \<in> set (buffer newConnection @ (''junk'' @ [newline]))"
    and n2: "newline \<in> set (buffer newConnection @ (''frame'' @ [newline]))"
    by simp_all
  have p1: "JSON_parse ?d (takeWhile (\<lambda>ch. ch \<noteq> newline)
              (buffer newConnection @ (''junk'' @ [newline]))) = SyntaxError"
    by (simp add: deafEnv_def wireEnv_def)
  have p2: "JSON_parse ?f (takeWhile (\<lambda>ch. ch \<noteq> newline)
              (buffer newConnection @ (''frame'' @ [newline]))) = Parsed claimFromB \<and>
        type_m claimFromB \<noteq> ''hello'' \<and> type_m claimFromB \<noteq> ''hello-ack'' \<and>
        \<not> (type_m claimFromB = ''key-rotation'' \<and> keyRotation_m claimFromB \<noteq> None) \<and>
        (\<not> verifySignature ?f claimFromB (from_m claimFromB) \<or>
         \<not> fst (ReplayProtector_check (replayProtector freshListener) (atReplay (steady 1000))
                  (atCleanup (steady 1000)) (nonce_m claimFromB) (ts_m claimFromB)))"
    by (simp add: forgedEnv_def wireEnv_def claimFromB_def)
  have fr: "from_m claimFromB = ''B''" "atRateLimit (steady 1000) = 1000"
    by (simp_all add: claimFromB_def steady_def)
  note a = invalid_frames_dropped [OF n1, where env = ?d and me = "''me''" and clk = "steady 1000"
      and l = freshListener, THEN conjunct1, rule_format, OF p1]
  note b = invalid_frames_dropped [OF n2, where env = ?f and me = "''me''" and clk = "steady 1000"
      and l = freshListener, THEN conjunct2, rule_format, OF p2]
  show ?thesis
    using a b unfolding fr by blast
qed

text \<open>
  The claim C7 as first stated has a line that fails to parse charged to its sender. A
  line that does not parse names no sender, and the handler returns at once: the limiter
  is the fresh one, with no entry, where a charge would have left one.
\<close>

theorem invalid_frames_counterexample:
  "onData (deafEnv claimFromB (tokenFor ''me'' ''A'')) ''me'' (steady 1000)
     (freshListener, newConnection) (''junk'' @ [newline]) =
     \<lparr>thrown = None, written = [], listener = freshListener, connection = newConnection\<rparr> \<and>
   state (rateLimiter freshListener) = [] \<and>
   state (snd (RateLimiter_check (rateLimiter freshListener) 1000 ''B'' invalidMessages)) =
     [(''B'', [(invalidMessages, \<lparr>requests = [1000], blockedUntil = None\<rparr>)])]"
  by (simp add: onData_def deafEnv_def wireEnv_def freshListener_def newConnection_def newline_def
      new_RateLimiter_def RateLimiter_check_def getState_def putState_def checkEntry_def
      blockedNow_def blockExpired_def emptyState_def DEFAULT_LIMITS_def Let_def)

section \<open>Claims of invite tokens\<close>

lemma handleClaim_written:
  "fst (handleClaim env me clk (l, c) msg tok) =
     (if \<not> fst (RateLimiter_check (rateLimiter l) (atRateLimit clk) (from_m msg) claims)
        then [rejectFrame me ''rate limited'']
      else case parseInviteToken env (atToken clk) tok of
             Inl err \<Rightarrow> [rejectFrame me (''invalid token: '' @ err)]
           | Inr t \<Rightarrow>
               if iss t \<noteq> me then [rejectFrame me ''token not issued by this peer'']
               else if sub t \<noteq> from_m msg then [rejectFrame me ''token not issued for you'']
               else [(frame me ''ack'')\<lparr>encryptPub_f := Some (identityEncryptPub env)\<rparr>])"
  by (simp add: handleClaim_def Let_def case_prod_beta split: sum.splits)

lemma handleClaim_no_grant:
  assumes "\<forall>t. parseInviteToken env (atToken clk) tok = Inr t \<longrightarrow> sub t \<noteq> from_m msg"
  shows "trust (fst (snd (handleClaim env me clk (l, c) msg tok))) = trust l"
    and "\<forall>f \<in> set (fst (handleClaim env me clk (l, c) msg tok)). type_f f = ''reject''"
  using assms
  by (auto simp: handleClaim_def Let_def case_prod_beta rejectFrame_def frame_def split: sum.splits)

lemma dispatch_claim:
  assumes "type_m msg = ''claim''" "token_m msg = Some tok" "tok \<noteq> ''''"
  shows "dispatch env me clk lc msg = handleClaim env me clk lc msg tok"
  using assms by (simp add: dispatch_def truthyStr_def orEmpty_def)

text \<open>What a \<^verbatim>\<open>data\<close> event does with a parsed claim frame that carries a token.\<close>

lemma onData_claim:
  assumes "newline \<in> set (buffer c @ data)"
      and "JSON_parse env (takeWhile (\<lambda>ch. ch \<noteq> newline) (buffer c @ data)) = Parsed msg"
      and "type_m msg = ''claim''" and "token_m msg = Some tok" and "tok \<noteq> ''''"
  shows "written (onData env me clk (l, c) data) =
     (if \<not> verifySignature env msg (from_m msg) then []
      else if \<not> fst (ReplayProtector_check (replayProtector l) (atReplay clk) (atCleanup clk)
                       (nonce_m msg) (ts_m msg)) then []
      else fst (handleClaim env me clk
             (l\<lparr>replayProtector :=
                  snd (ReplayProtector_check (replayProtector l) (atReplay clk) (atCleanup clk)
                         (nonce_m msg) (ts_m msg))\<rparr>,
              c\<lparr>buffer := drop (length (takeWhile (\<lambda>ch. ch \<noteq> newline) (buffer c @ data)) + 1)
                              (buffer c @ data)\<rparr>) msg tok))"
    and "trust (listener (onData env me clk (l, c) data)) =
     (if \<not> verifySignature env msg (from_m msg) then trust l
      else if \<not> fst (ReplayProtector_check (replayProtector l) (atReplay clk) (atCleanup clk)
                       (nonce_m msg) (ts_m msg)) then trust l
      else trust (fst (snd (handleClaim env me clk
             (l\<lparr>replayProtector :=
                  snd (ReplayProtector_check (replayProtector l) (atReplay clk) (atCleanup clk)
                         (nonce_m msg) (ts_m msg))\<rparr>,
              c\<lparr>buffer := drop (length (takeWhile (\<lambda>ch. ch \<noteq> newline) (buffer c @ data)) + 1)
                              (buffer c @ data)\<rparr>) msg tok))))"
proof -
  have ty: "type_m msg \<noteq> ''hello''" "type_m msg \<noteq> ''hello-ack''"
           "\<not> (type_m msg = ''key-rotation'' \<and> keyRotation_m msg \<noteq> None)"
    using assms(3) by simp_all
  show "written (onData env me clk (l, c) data) =
     (if \<not> verifySignature env msg (from_m msg) then []
      else if \<not> fst (ReplayProtector_check (replayProtector l) (atReplay clk) (atCleanup clk)
                       (nonce_m msg) (ts_m msg)) then []
      else fst (handleClaim env me clk
             (l\<lparr>replayProtector :=
                  snd (ReplayProtector_check (replayProtector l) (atReplay clk) (atCleanup clk)
                         (nonce_m msg) (ts_m msg))\<rparr>,
              c\<lparr>buffer := drop (length (takeWhile (\<lambda>ch. ch \<noteq> newline) (buffer c @ data)) + 1)
                              (buffer c @ data)\<rparr>) msg tok))"
    unfolding onData_parsed [OF assms(1,2)] handleMessage_gated [OF ty]
      dispatch_claim [OF assms(3,4,5)]
    by (simp add: case_prod_beta)
  show "trust (listener (onData env me clk (l, c) data)) =
     (if \<not> verifySignature env msg (from_m msg) then trust l
      else if \<not> fst (ReplayProtector_check (replayProtector l) (atReplay clk) (atCleanup clk)
                       (nonce_m msg) (ts_m msg)) then trust l
      else trust (fst (snd (handleClaim env me clk
             (l\<lparr>replayProtector :=
                  snd (ReplayProtector_check (replayProtector l) (atReplay clk) (atCleanup clk)
                         (nonce_m msg) (ts_m msg))\<rparr>,
              c\<lparr>buffer := drop (length (takeWhile (\<lambda>ch. ch \<noteq> newline) (buffer c @ data)) + 1)
                              (buffer c @ data)\<rparr>) msg tok))))"
    unfolding onData_parsed [OF assms(1,2)] handleMessage_gated [OF ty]
      dispatch_claim [OF assms(3,4,5)]
    by (simp add: case_prod_beta)
qed

text \<open>
  Claim C1, as amended. Let the responder receive a claim frame from sender \<open>B\<close> that
  carries a token.
  \<^item> If the token does not parse, or parses to \<open>t\<close> with \<open>t.sub \<noteq> B\<close>, the responder grants
    nothing (its trust store is unchanged) and every frame it writes is a \<^verbatim>\<open>reject\<close>.
  \<^item> When the frame's signature verifies, the replay protector accepts it and the sender
    is within the \<^verbatim>\<open>claims\<close> rate limit, exactly one frame is written, decided in this
    order: a token that does not parse (bad signature, expired) gives the reason
    \<open>invalid token: \<close> followed by the error; a token whose issuer is not the responder
    gives \<open>token not issued by this peer\<close>, whoever its subject is; a token of the
    responder's with \<open>t.sub \<noteq> B\<close> gives \<open>token not issued for you\<close>; only a token of the
    responder's made out to \<open>B\<close> is acknowledged.
  \<^item> When the sender is over the \<^verbatim>\<open>claims\<close> rate limit the reason is \<open>rate limited\<close>.
  \<^item> The claimer's result for a \<^verbatim>\<open>reject\<close> is \<open>Rejected\<close> (2) with the frame's reason.
\<close>

theorem misaddressed_claim_refused:
  assumes "newline \<in> set (buffer c @ data)"
      and "JSON_parse env (takeWhile (\<lambda>ch. ch \<noteq> newline) (buffer c @ data)) = Parsed msg"
      and "type_m msg = ''claim''" and "token_m msg = Some tok" and "tok \<noteq> ''''"
  shows "((\<forall>t. parseInviteToken env (atToken clk) tok = Inr t \<longrightarrow> sub t \<noteq> from_m msg) \<longrightarrow>
            trust (listener (onData env me clk (l, c) data)) = trust l \<and>
            (\<forall>f \<in> set (written (onData env me clk (l, c) data)). type_f f = ''reject'')) \<and>
         (verifySignature env msg (from_m msg) \<and>
          fst (ReplayProtector_check (replayProtector l) (atReplay clk) (atCleanup clk)
                 (nonce_m msg) (ts_m msg)) \<and>
          fst (RateLimiter_check (rateLimiter l) (atRateLimit clk) (from_m msg) claims) \<longrightarrow>
            written (onData env me clk (l, c) data) =
              (case parseInviteToken env (atToken clk) tok of
                 Inl err \<Rightarrow> [rejectFrame me (''invalid token: '' @ err)]
               | Inr t \<Rightarrow>
                   if iss t \<noteq> me then [rejectFrame me ''token not issued by this peer'']
                   else if sub t \<noteq> from_m msg then [rejectFrame me ''token not issued for you'']
                   else [(frame me ''ack'')\<lparr>encryptPub_f := Some (identityEncryptPub env)\<rparr>])) \<and>
         (verifySignature env msg (from_m msg) \<and>
          fst (ReplayProtector_check (replayProtector l) (atReplay clk) (atCleanup clk)
                 (nonce_m msg) (ts_m msg)) \<and>
          \<not> fst (RateLimiter_check (rateLimiter l) (atRateLimit clk) (from_m msg) claims) \<longrightarrow>
            written (onData env me clk (l, c) data) = [rejectFrame me ''rate limited'']) \<and>
         (\<forall>why. why \<noteq> '''' \<longrightarrow>
            claimOutcome (rejectFrame me why) = Some \<lparr>code = EXIT_REJECTED, message = Some why\<rparr>) \<and>
         EXIT_REJECTED = 2"
proof -
  let ?c1 = "c\<lparr>buffer := drop (length (takeWhile (\<lambda>ch. ch \<noteq> newline) (buffer c @ data)) + 1)
                              (buffer c @ data)\<rparr>"
  let ?l1 = "l\<lparr>replayProtector :=
                  snd (ReplayProtector_check (replayProtector l) (atReplay clk) (atCleanup clk)
                         (nonce_m msg) (ts_m msg))\<rparr>"
  note od = onData_claim [OF assms, of me clk l]
  have a: "trust (listener (onData env me clk (l, c) data)) = trust l \<and>
            (\<forall>f \<in> set (written (onData env me clk (l, c) data)). type_f f = ''reject'')"
    if h: "\<forall>t. parseInviteToken env (atToken clk) tok = Inr t \<longrightarrow> sub t \<noteq> from_m msg"
    using handleClaim_no_grant [OF h, of me ?l1 ?c1] unfolding od by simp
  have b: "written (onData env me clk (l, c) data) =
              (case parseInviteToken env (atToken clk) tok of
                 Inl err \<Rightarrow> [rejectFrame me (''invalid token: '' @ err)]
               | Inr t \<Rightarrow>
                   if iss t \<noteq> me then [rejectFrame me ''token not issued by this peer'']
                   else if sub t \<noteq> from_m msg then [rejectFrame me ''token not issued for you'']
                   else [(frame me ''ack'')\<lparr>encryptPub_f := Some (identityEncryptPub env)\<rparr>])"
    if "verifySignature env msg (from_m msg)"
       "fst (ReplayProtector_check (replayProtector l) (atReplay clk) (atCleanup clk)
                 (nonce_m msg) (ts_m msg))"
       "fst (RateLimiter_check (rateLimiter l) (atRateLimit clk) (from_m msg) claims)"
    unfolding od handleClaim_written using that by simp
  have d: "written (onData env me clk (l, c) data) = [rejectFrame me ''rate limited'']"
    if "verifySignature env msg (from_m msg)"
       "fst (ReplayProtector_check (replayProtector l) (atReplay clk) (atCleanup clk)
                 (nonce_m msg) (ts_m msg))"
       "\<not> fst (RateLimiter_check (rateLimiter l) (atRateLimit clk) (from_m msg) claims)"
    unfolding od handleClaim_written using that by simp
  have e: "\<forall>why. why \<noteq> '''' \<longrightarrow>
            claimOutcome (rejectFrame me why) = Some \<lparr>code = EXIT_REJECTED, message = Some why\<rparr>"
    by (simp add: claimOutcome_def rejectFrame_def frame_def truthyStr_def orEmpty_def)
  have f: "EXIT_REJECTED = 2"
    by (simp add: EXIT_REJECTED_def)
  show ?thesis
    using a b d e f by (intro conjI impI) blast+
qed

theorem misaddressed_claim_refused_witness:
  "written (onData (wireEnv claimFromB (tokenFor ''me'' ''A'')) ''me'' (steady 1000)
      (freshListener, newConnection) (''frame'' @ [newline])) =
     [rejectFrame ''me'' ''token not issued for you''] \<and>
   trust (listener (onData (wireEnv claimFromB (tokenFor ''me'' ''A'')) ''me'' (steady 1000)
      (freshListener, newConnection) (''frame'' @ [newline]))) = trust freshListener \<and>
   claimOutcome (rejectFrame ''me'' ''token not issued for you'') =
     Some \<lparr>code = 2, message = Some ''token not issued for you''\<rparr>"
proof -
  let ?e = "wireEnv claimFromB (tokenFor ''me'' ''A'')"
  let ?d = "''frame'' @ [newline]"
  have h1: "newline \<in> set (buffer newConnection @ ?d)" by simp
  have h2: "JSON_parse ?e (takeWhile (\<lambda>ch. ch \<noteq> newline) (buffer newConnection @ ?d)) =
      Parsed claimFromB"
    by (simp add: wireEnv_def)
  have h3: "type_m claimFromB = ''claim''" and h4: "token_m claimFromB = Some ''tok''"
    and h5: "''tok'' \<noteq> ''''"
    by (simp_all add: claimFromB_def)
  note sem = misaddressed_claim_refused [OF h1 h2 h3 h4 h5, where me = "''me''"
      and clk = "steady 1000" and l = freshListener]
  have mis: "\<forall>t. parseInviteToken ?e (atToken (steady 1000)) ''tok'' = Inr t \<longrightarrow>
      sub t \<noteq> from_m claimFromB"
    by (simp add: wireEnv_def tokenFor_def claimFromB_def)
  have gates: "verifySignature ?e claimFromB (from_m claimFromB) \<and>
      fst (ReplayProtector_check (replayProtector freshListener) (atReplay (steady 1000))
            (atCleanup (steady 1000)) (nonce_m claimFromB) (ts_m claimFromB)) \<and>
      fst (RateLimiter_check (rateLimiter freshListener) (atRateLimit (steady 1000))
            (from_m claimFromB) claims)"
    by (simp add: wireEnv_def claimFromB_def freshListener_def steady_def
        new_RateLimiter_def new_ReplayProtector_def ReplayProtector_check_def
        RateLimiter_check_def getState_def putState_def checkEntry_def blockedNow_def
        blockExpired_def emptyState_def DEFAULT_LIMITS_def Let_def)
  have tok: "(case parseInviteToken ?e (atToken (steady 1000)) ''tok'' of
                 Inl err \<Rightarrow> [rejectFrame ''me'' (''invalid token: '' @ err)]
               | Inr t \<Rightarrow>
                   if iss t \<noteq> ''me'' then [rejectFrame ''me'' ''token not issued by this peer'']
                   else if sub t \<noteq> from_m claimFromB
                     then [rejectFrame ''me'' ''token not issued for you'']
                   else [(frame ''me'' ''ack'')\<lparr>encryptPub_f := Some (identityEncryptPub ?e)\<rparr>]) =
      [rejectFrame ''me'' ''token not issued for you'']"
    by (simp add: wireEnv_def tokenFor_def claimFromB_def)
  have w: "written (onData ?e ''me'' (steady 1000) (freshListener, newConnection) ?d) =
      [rejectFrame ''me'' ''token not issued for you'']"
    using sem [THEN conjunct2, THEN conjunct1, THEN mp, OF gates] unfolding tok .
  have tr: "trust (listener (onData ?e ''me'' (steady 1000) (freshListener, newConnection) ?d)) =
      trust freshListener"
    using sem [THEN conjunct1, THEN mp, OF mis] by blast
  have co: "claimOutcome (rejectFrame ''me'' ''token not issued for you'') =
     Some \<lparr>code = 2, message = Some ''token not issued for you''\<rparr>"
    using sem by simp
  show ?thesis using w tr co by blast
qed

text \<open>
  The claim C1 as first stated promises the reason \<open>token not issued for you\<close> whatever
  the token's other fields are. The issuer is checked first: a token made out to \<open>A\<close> by
  another issuer, claimed by \<open>B\<close>, is refused with \<open>token not issued by this peer\<close>.
\<close>

theorem misaddressed_claim_counterexample:
  "sub (tokenFor ''other'' ''A'') = ''A'' \<and> from_m claimFromB = ''B'' \<and>
   written (onData (wireEnv claimFromB (tokenFor ''other'' ''A'')) ''me'' (steady 1000)
      (freshListener, newConnection) (''frame'' @ [newline])) =
     [rejectFrame ''me'' ''token not issued by this peer'']"
  by (simp add: onData_def handleMessage_def dispatch_def handleClaim_def wireEnv_def
        claimFromB_def tokenFor_def freshListener_def newConnection_def newline_def steady_def
        new_RateLimiter_def new_ReplayProtector_def ReplayProtector_check_def
        RateLimiter_check_def getState_def putState_def checkEntry_def blockedNow_def
        blockExpired_def emptyState_def DEFAULT_LIMITS_def truthyStr_def orEmpty_def Let_def)

section \<open>The initiator's inject path\<close>

lemma peerByHistory_None:
  "peerByHistory ps k = None \<longleftrightarrow>
     \<not> (\<exists>p \<in> set ps. \<exists>hs. keyHistory_p p = Some hs \<and> (\<exists>h \<in> set hs. publicKey_h h = k))"
  by (induction ps) (auto simp: historyHasKey_iff split: option.splits)

lemma findPeer_None:
  "findPeer lower ps idOrName = None \<longleftrightarrow>
     \<not> (\<exists>p \<in> set ps. id_p p = idOrName \<or> nameMatches lower (name_p p) idOrName \<or>
            publicKey_p p = idOrName \<or>
            (\<exists>hs. keyHistory_p p = Some hs \<and> (\<exists>h \<in> set hs. publicKey_h h = idOrName)))"
proof (cases "find (\<lambda>p. id_p p = idOrName \<or> nameMatches lower (name_p p) idOrName \<or>
                     publicKey_p p = idOrName) ps")
  case None
  then have no: "\<not> (\<exists>p \<in> set ps. id_p p = idOrName \<or> nameMatches lower (name_p p) idOrName \<or>
                     publicKey_p p = idOrName)"
    by (simp add: find_None_iff)
  have eq: "findPeer lower ps idOrName = peerByHistory ps idOrName"
    using None by (simp add: findPeer_def)
  show ?thesis
    unfolding eq peerByHistory_None using no by blast
next
  case (Some p)
  then have "p \<in> set ps \<and> (id_p p = idOrName \<or> nameMatches lower (name_p p) idOrName \<or>
                     publicKey_p p = idOrName)"
    using find_SomeD [of _ ps p] by blast
  moreover have "findPeer lower ps idOrName = Some p"
    using Some by (simp add: findPeer_def)
  ultimately show ?thesis by auto
qed

text \<open>
  Claim C9, as amended. \<^verbatim>\<open>sendP2PInject\<close> returns before it opens any transport, in this
  order of precedence: \<open>Invalid\<close> (3) when there is no local identity; \<open>Invalid\<close> (3) when
  no peer record matches the identifier (by id, by name compared in lower case, by
  current key or by historical key);
  \<open>Rejected\<close> (2) when the matching peer's sessions hold neither the session nor \<open>*\<close>,
  whether or not the peer has an encryption key; \<open>Invalid\<close> (3) when the session is
  allowed and the peer has no encryption key.
\<close>

theorem inject_refused_before_transport:
  "(identity = None \<longrightarrow>
      fst (sendP2PInject exchange lower identity ps pid s m) = [] \<and>
      code (snd (sendP2PInject exchange lower identity ps pid s m)) = EXIT_INVALID) \<and>
   (identity \<noteq> None \<and>
    \<not> (\<exists>p \<in> set ps. id_p p = pid \<or> nameMatches lower (name_p p) pid \<or> publicKey_p p = pid \<or>
          (\<exists>hs. keyHistory_p p = Some hs \<and> (\<exists>h \<in> set hs. publicKey_h h = pid))) \<longrightarrow>
      fst (sendP2PInject exchange lower identity ps pid s m) = [] \<and>
      code (snd (sendP2PInject exchange lower identity ps pid s m)) = EXIT_INVALID) \<and>
   (\<forall>peer. identity \<noteq> None \<and> findPeer lower ps pid = Some peer \<and>
      s \<notin> set (sessions_p peer) \<and> ''*'' \<notin> set (sessions_p peer) \<longrightarrow>
      fst (sendP2PInject exchange lower identity ps pid s m) = [] \<and>
      code (snd (sendP2PInject exchange lower identity ps pid s m)) = EXIT_REJECTED) \<and>
   (\<forall>peer. identity \<noteq> None \<and> findPeer lower ps pid = Some peer \<and>
      (s \<in> set (sessions_p peer) \<or> ''*'' \<in> set (sessions_p peer)) \<and>
      (encryptPub_p peer = None \<or> encryptPub_p peer = Some '''') \<longrightarrow>
      fst (sendP2PInject exchange lower identity ps pid s m) = [] \<and>
      code (snd (sendP2PInject exchange lower identity ps pid s m)) = EXIT_INVALID) \<and>
   EXIT_INVALID = 3 \<and> EXIT_REJECTED = 2"
proof -
  have a: "identity = None \<longrightarrow>
      fst (sendP2PInject exchange lower identity ps pid s m) = [] \<and>
      code (snd (sendP2PInject exchange lower identity ps pid s m)) = EXIT_INVALID"
    by (simp add: sendP2PInject_def)
  have b: "identity \<noteq> None \<and>
    \<not> (\<exists>p \<in> set ps. id_p p = pid \<or> nameMatches lower (name_p p) pid \<or> publicKey_p p = pid \<or>
          (\<exists>hs. keyHistory_p p = Some hs \<and> (\<exists>h \<in> set hs. publicKey_h h = pid))) \<longrightarrow>
      fst (sendP2PInject exchange lower identity ps pid s m) = [] \<and>
      code (snd (sendP2PInject exchange lower identity ps pid s m)) = EXIT_INVALID"
    unfolding findPeer_None [symmetric] by (auto simp: sendP2PInject_def)
  have c: "\<forall>peer. identity \<noteq> None \<and> findPeer lower ps pid = Some peer \<and>
      s \<notin> set (sessions_p peer) \<and> ''*'' \<notin> set (sessions_p peer) \<longrightarrow>
      fst (sendP2PInject exchange lower identity ps pid s m) = [] \<and>
      code (snd (sendP2PInject exchange lower identity ps pid s m)) = EXIT_REJECTED"
    by (auto simp: sendP2PInject_def)
  have d: "\<forall>peer. identity \<noteq> None \<and> findPeer lower ps pid = Some peer \<and>
      (s \<in> set (sessions_p peer) \<or> ''*'' \<in> set (sessions_p peer)) \<and>
      (encryptPub_p peer = None \<or> encryptPub_p peer = Some '''') \<longrightarrow>
      fst (sendP2PInject exchange lower identity ps pid s m) = [] \<and>
      code (snd (sendP2PInject exchange lower identity ps pid s m)) = EXIT_INVALID"
    by (auto simp: sendP2PInject_def truthyStr_def)
  show ?thesis
    using a b c d by (simp add: EXIT_INVALID_def EXIT_REJECTED_def)
qed

theorem inject_refused_before_transport_witness:
  "sendP2PInject offlineExchange asciiLowerCase (Some ''me'')
     [\<lparr>id_p = ''a1b2c3d4'', name_p = None, publicKey_p = ''A'', encryptPub_p = Some ''a-enc'',
       sessions_p = [''dev''], caps_p = [''inject''], added = 1, keyHistory_p = None\<rparr>]
     ''A'' ''prod'' ''x'' =
   ([], \<lparr>code = 2, message = Some ''No access to session \"prod\"''\<rparr>) \<and>
   fst (sendP2PInject offlineExchange asciiLowerCase (Some ''me'')
     [\<lparr>id_p = ''a1b2c3d4'', name_p = None, publicKey_p = ''A'', encryptPub_p = None,
       sessions_p = [''dev''], caps_p = [''inject''], added = 1, keyHistory_p = None\<rparr>]
     ''A'' ''dev'' ''x'') = [] \<and>
   code (snd (sendP2PInject offlineExchange asciiLowerCase (Some ''me'')
     [\<lparr>id_p = ''a1b2c3d4'', name_p = None, publicKey_p = ''A'', encryptPub_p = None,
       sessions_p = [''dev''], caps_p = [''inject''], added = 1, keyHistory_p = None\<rparr>]
     ''A'' ''dev'' ''x'')) = 3"
proof -
  let ?p = "\<lparr>id_p = ''a1b2c3d4'', name_p = None, publicKey_p = ''A'', encryptPub_p = None,
       sessions_p = [''dev''], caps_p = [''inject''], added = 1, keyHistory_p = None\<rparr>"
  have ev: "sendP2PInject offlineExchange asciiLowerCase (Some ''me'')
     [\<lparr>id_p = ''a1b2c3d4'', name_p = None, publicKey_p = ''A'', encryptPub_p = Some ''a-enc'',
       sessions_p = [''dev''], caps_p = [''inject''], added = 1, keyHistory_p = None\<rparr>]
     ''A'' ''prod'' ''x'' =
   ([], \<lparr>code = 2, message = Some ''No access to session \"prod\"''\<rparr>)"
    by (simp add: sendP2PInject_def findPeer_def nameMatches_def EXIT_REJECTED_def)
  have h: "Some ''me'' \<noteq> None \<and> findPeer asciiLowerCase [?p] ''A'' = Some ?p \<and>
      (''dev'' \<in> set (sessions_p ?p) \<or> ''*'' \<in> set (sessions_p ?p)) \<and>
      (encryptPub_p ?p = None \<or> encryptPub_p ?p = Some '''')"
    by (simp add: findPeer_def nameMatches_def)
  note sem = inject_refused_before_transport [where identity = "Some ''me''" and ps = "[?p]"
      and pid = "''A''" and s = "''dev''" and exchange = offlineExchange and m = "''x''" and lower = asciiLowerCase]
  have r: "fst (sendP2PInject offlineExchange asciiLowerCase (Some ''me'') [?p] ''A'' ''dev'' ''x'') = [] \<and>
      code (snd (sendP2PInject offlineExchange asciiLowerCase (Some ''me'') [?p] ''A'' ''dev'' ''x'')) = 3"
    using sem h by metis
  show ?thesis using ev r by blast
qed

text \<open>
  The claim C9 as first stated has \<open>Invalid\<close> for every peer without an encryption key. The
  session is checked first: for a peer without a key and a session it does not list, the
  result is \<open>Rejected\<close> (2).
\<close>

theorem inject_refused_counterexample:
  "findPeer asciiLowerCase
     [\<lparr>id_p = ''a1b2c3d4'', name_p = None, publicKey_p = ''A'', encryptPub_p = None,
       sessions_p = [''dev''], caps_p = [''inject''], added = 1, keyHistory_p = None\<rparr>] ''A'' =
     Some \<lparr>id_p = ''a1b2c3d4'', name_p = None, publicKey_p = ''A'', encryptPub_p = None,
       sessions_p = [''dev''], caps_p = [''inject''], added = 1, keyHistory_p = None\<rparr> \<and>
   sendP2PInject offlineExchange asciiLowerCase (Some ''me'')
     [\<lparr>id_p = ''a1b2c3d4'', name_p = None, publicKey_p = ''A'', encryptPub_p = None,
       sessions_p = [''dev''], caps_p = [''inject''], added = 1, keyHistory_p = None\<rparr>]
     ''A'' ''prod'' ''x'' =
   ([], \<lparr>code = 2, message = Some ''No access to session \"prod\"''\<rparr>) \<and>
   EXIT_INVALID = 3"
  by (simp add: sendP2PInject_def findPeer_def nameMatches_def EXIT_REJECTED_def EXIT_INVALID_def)

section \<open>Granting again after a revocation\<close>

lemma set_fromSet [simp]: "set (fromSet xs) = set xs"
  by (simp add: fromSet_def)










end
